theory Spec2Isabelle
  imports Complex_Main
begin

section \<open>Numbers and vectors\<close>

text \<open>
  The game computes with JavaScript numbers. They are modelled as real numbers: rounding
  is not represented. The two infinities occur in the source only as the initial values
  of running minima and maxima, and are modelled where they occur by \<open>None\<close> of an
  option type (the meaning is noted at each such variable).

  A point or vector \<open>{x, y}\<close> is a pair.

  Division is the division of the reals where the divisor is not 0. The divisors of the
  source are the length of an edge normal (replaced by 1 when it is 0), the number of
  vertices (at least 1), the constant 1000, the denominator in \<open>pointInPolygon\<close> (whose
  zero case is written out there), and three that the constructor's values keep away
  from 0: the tangent of a steer angle between 0.01 and \<open>pi / 6\<close> in absolute value, the
  turn radius of a wheelbase of 70, and the bounce duration of 140 ms.
\<close>

type_synonym vec = "real \<times> real"

definition js_or :: "real \<Rightarrow> real \<Rightarrow> real" where
  \<comment> \<open>\<open>a || b\<close> on numbers: \<open>0\<close> is the only falsy real.\<close>
  "js_or a b = (if a = 0 then b else a)"

definition hypot :: "real \<Rightarrow> real \<Rightarrow> real" where
  \<comment> \<open>\<open>Math.hypot(a, b)\<close>\<close>
  "hypot a b = sqrt (a * a + b * b)"

definition dot :: "vec \<Rightarrow> vec \<Rightarrow> real" where
  \<comment> \<open>the expression \<open>p.x * q.x + p.y * q.y\<close> of the source\<close>
  "dot p q = fst p * fst q + snd p * snd q"

section \<open>Geometry kernel\<close>

definition rotateAbout :: "real \<Rightarrow> real \<Rightarrow> real \<Rightarrow> vec \<Rightarrow> vec" where
  \<comment> \<open>the arrow function given to \<open>local.map\<close> in both polygon constructors\<close>
  "rotateAbout cx cy angle p =
     (cx + fst p * cos angle - snd p * sin angle,
      cy + fst p * sin angle + snd p * cos angle)"

definition getRectangleCorners :: "real \<Rightarrow> real \<Rightarrow> real \<Rightarrow> real \<Rightarrow> real \<Rightarrow> vec list" where
  "getRectangleCorners cx cy width height angle =
     (let halfW = width / 2;
          halfH = height / 2;
          local = [(- halfW, - halfH), (halfW, - halfH), (halfW, halfH), (- halfW, halfH)]
      in map (rotateAbout cx cy angle) local)"

definition edgeAxis :: "vec \<Rightarrow> vec \<Rightarrow> vec" where
  \<comment> \<open>the body of the loop of \<open>getAxes\<close>: the unit normal of the edge from \<open>p1\<close> to
      \<open>p2\<close>; an edge of length zero is divided by 1 and gives the zero vector\<close>
  "edgeAxis p1 p2 =
     (let edgeX = fst p2 - fst p1;
          edgeY = snd p2 - snd p1;
          axisX = - edgeY;
          axisY = edgeX;
          len = js_or (hypot axisX axisY) 1
      in (axisX / len, axisY / len))"

definition getAxes :: "vec list \<Rightarrow> vec list" where
  "getAxes points =
     map (\<lambda>i. edgeAxis (points ! i) (points ! ((i + 1) mod length points)))
       [0 ..< length points]"

definition projectStep :: "vec \<Rightarrow> vec \<Rightarrow> real option \<times> real option \<Rightarrow> real option \<times> real option" where
  \<comment> \<open>one round of the loop of \<open>projectPointsOnAxis\<close>. In the first component \<open>None\<close> is
      \<open>Infinity\<close> (every projection is below it), in the second it is \<open>-Infinity\<close>.\<close>
  "projectStep axis p acc =
     (let projection = fst p * fst axis + snd p * snd axis;
          mn = (case fst acc of None \<Rightarrow> Some projection
                | Some m \<Rightarrow> if projection < m then Some projection else Some m);
          mx = (case snd acc of None \<Rightarrow> Some projection
                | Some m \<Rightarrow> if projection > m then Some projection else Some m)
      in (mn, mx))"

definition projectPointsOnAxis :: "vec list \<Rightarrow> vec \<Rightarrow> real option \<times> real option" where
  \<comment> \<open>returns \<open>[min, max]\<close>; for no points that is \<open>[Infinity, -Infinity]\<close>, here
      \<open>(None, None)\<close>\<close>
  "projectPointsOnAxis points axis = fold (projectStep axis) points (None, None)"

definition maxBelowMin :: "real option \<Rightarrow> real option \<Rightarrow> bool" where
  \<comment> \<open>\<open>maxA < minB\<close> for a maximum (\<open>None\<close> is \<open>-Infinity\<close>) and a minimum (\<open>None\<close> is
      \<open>Infinity\<close>): true as soon as one of them is infinite\<close>
  "maxBelowMin mx mn = (case (mx, mn) of (Some a, Some b) \<Rightarrow> a < b | _ \<Rightarrow> True)"

definition getChamferedRectPolygon ::
  "real \<Rightarrow> real \<Rightarrow> real \<Rightarrow> real \<Rightarrow> real \<Rightarrow> real \<Rightarrow> real \<Rightarrow> vec list" where
  "getChamferedRectPolygon cx cy width height angle insetX insetY =
     (let halfW = width / 2;
          halfH = height / 2;
          ix = min (max insetX 0) (max 0 (halfW - 1));
          iy = min (max insetY 0) (max 0 (halfH - 1));
          local = [(- halfW + ix, - halfH), (halfW - ix, - halfH),
                   (halfW, - halfH + iy), (halfW, halfH - iy),
                   (halfW - ix, halfH), (- halfW + ix, halfH),
                   (- halfW, halfH - iy), (- halfW, - halfH + iy)]
      in map (rotateAbout cx cy angle) local)"

definition separated :: "vec list \<Rightarrow> vec list \<Rightarrow> vec \<Rightarrow> bool" where
  \<comment> \<open>the test \<open>maxA < minB || maxB < minA\<close> on one axis, shared by \<open>rectangleCollision\<close>
      and \<open>polygonCollision\<close>\<close>
  "separated pointsA pointsB axis =
     (let (minA, maxA) = projectPointsOnAxis pointsA axis;
          (minB, maxB) = projectPointsOnAxis pointsB axis
      in maxBelowMin maxA minB \<or> maxBelowMin maxB minA)"

definition polygonCollision :: "vec list \<Rightarrow> vec list \<Rightarrow> bool" where
  \<comment> \<open>the loop returns false at the first separating axis and true after the last\<close>
  "polygonCollision pointsA pointsB =
     (let axes = getAxes pointsA @ getAxes pointsB
      in \<not> list_ex (separated pointsA pointsB) axes)"

definition rectangleCollision ::
  "real \<Rightarrow> real \<Rightarrow> real \<Rightarrow> real \<Rightarrow> real \<Rightarrow> real \<Rightarrow> real \<Rightarrow> real \<Rightarrow> real \<Rightarrow> real \<Rightarrow> bool" where
  "rectangleCollision x1 y1 w1 h1 a1 x2 y2 w2 h2 a2 =
     (let rect1 = getRectangleCorners x1 y1 w1 h1 a1;
          rect2 = getRectangleCorners x2 y2 w2 h2 a2;
          axes = getAxes rect1 @ getAxes rect2
      in \<not> list_ex (separated rect1 rect2) axes)"

definition getPolygonCenter :: "vec list \<Rightarrow> vec" where
  "getPolygonCenter points =
     (let (sx, sy) = fold (\<lambda>p (sx, sy). (sx + fst p, sy + snd p)) points (0, 0);
          inv = 1 / max (real (length points)) 1
      in (sx * inv, sy * inv))"

definition axisOverlap :: "vec list \<Rightarrow> vec list \<Rightarrow> vec \<Rightarrow> real option" where
  \<comment> \<open>\<open>Math.min(maxA, maxB) - Math.max(minA, minB)\<close>. A maximum is finite or \<open>-Infinity\<close>
      and a minimum is finite or \<open>Infinity\<close>, so the difference is finite when all four
      are, and \<open>-Infinity\<close> (here \<open>None\<close>) otherwise.\<close>
  "axisOverlap pointsA pointsB axis =
     (let (minA, maxA) = projectPointsOnAxis pointsA axis;
          (minB, maxB) = projectPointsOnAxis pointsB axis
      in case (maxA, maxB, minA, minB) of
           (Some a, Some b, Some c, Some d) \<Rightarrow> Some (min a b - max c d)
         | _ \<Rightarrow> None)"

record collision =
  collides :: bool
  mtv :: "vec option"

fun mtvLoop ::
  "vec list \<Rightarrow> vec list \<Rightarrow> vec \<Rightarrow> vec \<Rightarrow> vec list \<Rightarrow> (real \<times> vec) option
     \<Rightarrow> (real \<times> vec) option option" where
  \<comment> \<open>The loop over the axes of \<open>polygonCollisionMTV\<close>. The variables \<open>smallestOverlap\<close>
      and \<open>separatingAxis\<close> are assigned together, so they are one optional pair: \<open>None\<close>
      is their initial value (\<open>Infinity\<close>, \<open>null\<close>). The result \<open>None\<close> is the early
      \<open>return { collides: false }\<close>.\<close>
  "mtvLoop pointsA pointsB centerA centerB [] best = Some best"
| "mtvLoop pointsA pointsB centerA centerB (axis # axes) best =
     (case axisOverlap pointsA pointsB axis of
        None \<Rightarrow> None
      | Some overlap \<Rightarrow>
          if overlap \<le> 0 then None
          else if (case best of None \<Rightarrow> True | Some (smallestOverlap, _) \<Rightarrow> overlap < smallestOverlap)
          then
            (let delta = (fst centerB - fst centerA, snd centerB - snd centerA);
                 sign = (if fst delta * fst axis + snd delta * snd axis < 0 then - 1 else 1);
                 separatingAxis = (fst axis * sign, snd axis * sign)
             in mtvLoop pointsA pointsB centerA centerB axes (Some (overlap, separatingAxis)))
          else mtvLoop pointsA pointsB centerA centerB axes best)"

definition polygonCollisionMTV :: "vec list \<Rightarrow> vec list \<Rightarrow> collision" where
  "polygonCollisionMTV pointsA pointsB =
     (let axes = getAxes pointsA @ getAxes pointsB;
          centerA = getPolygonCenter pointsA;
          centerB = getPolygonCenter pointsB
      in case mtvLoop pointsA pointsB centerA centerB axes None of
           None \<Rightarrow> \<lparr>collides = False, mtv = None\<rparr>
         | Some best \<Rightarrow>
             \<lparr>collides = True,
              mtv = Some (case best of
                            Some (smallestOverlap, separatingAxis) \<Rightarrow>
                              (fst separatingAxis * smallestOverlap,
                               snd separatingAxis * smallestOverlap)
                          | None \<Rightarrow> (0, 0))\<rparr>)"

definition pointInPolygon :: "real \<Rightarrow> real \<Rightarrow> vec list \<Rightarrow> bool" where
  \<comment> \<open>The loop runs \<open>i\<close> from 0 with \<open>j\<close> the index before it (the last index at first).
      Where the denominator is 0 the quotient of the source is \<open>Infinity\<close>, \<open>-Infinity\<close>
      or \<open>NaN\<close> after the sign of the numerator, and \<open>px\<close> is below it only for
      \<open>Infinity\<close>.\<close>
  "pointInPolygon px py points =
     fold (\<lambda>i inside.
             let j = (if i = 0 then length points - 1 else i - 1);
                 xi = fst (points ! i); yi = snd (points ! i);
                 xj = fst (points ! j); yj = snd (points ! j);
                 numerator = (xj - xi) * (py - yi);
                 denominator = yj - yi + 1 / 10 ^ 12;
                 intersect = ((yi > py) \<noteq> (yj > py) \<and>
                              (if denominator = 0 then 0 < numerator
                               else px < numerator / denominator + xi))
             in if intersect then \<not> inside else inside)
       [0 ..< length points] False"

section \<open>Game state\<close>

text \<open>
  The objects of the constructor of \<open>ParkingGame\<close>. The parking space has a centre and a
  size; a parked car has an angle and collision insets as well; the player's car adds the
  kinematic fields. The fields \<open>x\<close> and \<open>y\<close> are called \<open>pos_x\<close> and \<open>pos_y\<close>.
\<close>

record box =
  pos_x :: real
  pos_y :: real
  width :: real
  height :: real

record body = box +
  angle :: real
  collisionInsetX :: real
  collisionInsetY :: real

record player = body +
  speed :: real
  maxSpeed :: real
  acceleration :: real
  friction :: real
  steerAngle :: real
  maxSteerAngle :: real
  wheelbase :: real
  steerChangeRate :: real
  collided :: bool
  lastDirection :: int

record keys =
  up :: bool
  down :: bool
  left :: bool
  right :: bool

datatype hit = HitCar body | HitCurb

text \<open>
  The fields of the game object that the update and the level logic read or write. The
  canvas is represented by its width and height. A field that is \<open>null\<close> at first is an
  option. Times are in milliseconds.
\<close>

record game =
  canvasWidth :: real
  canvasHeight :: real
  centerX :: real
  centerY :: real
  car :: player
  keys :: keys
  parkedCars :: "body list"
  parkingSpace :: box
  gapBetweenCars :: real
  minGap :: real
  gapStep :: real
  winCount :: nat
  winLatched :: bool
  curbWidth :: real
  curbHeight :: real
  curbOffsetY :: real
  laneGapFromCurb :: real
  isDragging :: bool
  dragOffsetX :: real
  dragOffsetY :: real
  winResetDelayMs :: real
  winResetAtMs :: "real option"
  collisionFlashDurationMs :: real
  collisionFlashUntilMs :: real
  collisionBounceSpeed :: real
  collisionBounceDurationMs :: real
  collisionBounceUntilMs :: real
  collisionBounceDir :: vec
  collisionMTV :: "vec option"
  debug :: bool
  lastCollision :: "hit option"
  lastFrameAtMs :: "real option"

section \<open>Layout and spawn\<close>

definition setInitialCarPosition :: "game \<Rightarrow> game" where
  "setInitialCarPosition s =
     (let curbTop = centerY s + curbOffsetY s;
          laneYInit = curbTop - laneGapFromCurb s - height (car s) - 50
      in s\<lparr>car := (car s)\<lparr>
             pos_x := centerX s - (gapBetweenCars s / 2 + width (car s)) - 100,
             pos_y := laneYInit,
             speed := 0,
             steerAngle := 0,
             lastDirection := 1,
             angle := 0\<rparr>\<rparr>)"

definition recomputeParkingLayout :: "game \<Rightarrow> game option" where
  \<comment> \<open>reads \<open>parkedCars[0]\<close> and \<open>parkedCars[1]\<close>: with fewer than two parked cars the
      source throws a TypeError, here \<open>None\<close>\<close>
  "recomputeParkingLayout s =
     (case parkedCars s of
        p0 # p1 # rest \<Rightarrow>
          (let curbTop = centerY s + curbOffsetY s;
               laneY = curbTop - laneGapFromCurb s - height (parkingSpace s) / 2;
               cX = centerX s;
               carWidth = width p0;
               offset = (gapBetweenCars s + carWidth) / 2;
               npcCenterY = laneY
           in Some (s\<lparr>parkingSpace := (parkingSpace s)\<lparr>
                         pos_x := cX, pos_y := laneY, width := gapBetweenCars s\<rparr>,
                       parkedCars :=
                         p0\<lparr>pos_x := cX - offset, pos_y := npcCenterY\<rparr> #
                         p1\<lparr>pos_x := cX + offset, pos_y := npcCenterY\<rparr> # rest\<rparr>))
      | _ \<Rightarrow> None)"

definition construct :: "real \<Rightarrow> real \<Rightarrow> game" where
  \<comment> \<open>the field initialisers of the constructor, for a canvas of the given size\<close>
  "construct w h =
     \<lparr>canvasWidth = w, canvasHeight = h, centerX = w / 2, centerY = h / 2,
      car = \<lparr>pos_x = 100, pos_y = 300, width = 90, height = 45, angle = 0,
             collisionInsetX = 8, collisionInsetY = 6,
             speed = 0, maxSpeed = 360, acceleration = 100, friction = 300,
             steerAngle = 0, maxSteerAngle = pi / 6, wheelbase = 70,
             steerChangeRate = 8 / 10, collided = False, lastDirection = 1\<rparr>,
      keys = \<lparr>up = False, down = False, left = False, right = False\<rparr>,
      parkedCars =
        [\<lparr>pos_x = w / 2 - 120, pos_y = h / 2, width = 90, height = 45, angle = 0,
          collisionInsetX = 8, collisionInsetY = 6\<rparr>,
         \<lparr>pos_x = w / 2 + 120, pos_y = h / 2, width = 90, height = 45, angle = 0,
          collisionInsetX = 8, collisionInsetY = 6\<rparr>],
      parkingSpace = \<lparr>pos_x = w / 2, pos_y = h / 2, width = 150, height = 60\<rparr>,
      gapBetweenCars = 200, minGap = 60, gapStep = 20, winCount = 0, winLatched = False,
      curbWidth = w, curbHeight = 30, curbOffsetY = 160, laneGapFromCurb = 10,
      isDragging = False, dragOffsetX = 0, dragOffsetY = 0,
      winResetDelayMs = 1200, winResetAtMs = None,
      collisionFlashDurationMs = 120, collisionFlashUntilMs = 0,
      collisionBounceSpeed = 220, collisionBounceDurationMs = 140,
      collisionBounceUntilMs = 0, collisionBounceDir = (0, 0), collisionMTV = None,
      debug = False, lastCollision = None, lastFrameAtMs = None\<rparr>"

definition initial :: "real \<Rightarrow> real \<Rightarrow> game option" where
  \<comment> \<open>the constructor: the fields, the spawn pose, then the layout\<close>
  "initial w h = recomputeParkingLayout (setInitialCarPosition (construct w h))"

section \<open>Vehicle kinematics and collision response\<close>

text \<open>
  \<open>updateCar\<close> is one function in the source. Its consecutive blocks are given names
  here, in the order in which they run, so that a property can speak about the state
  between two blocks. \<open>dt\<close> is the argument \<open>dtSeconds\<close>.
\<close>

definition throttle :: "real \<Rightarrow> game \<Rightarrow> game" where
  \<comment> \<open>"Handle acceleration"\<close>
  "throttle dt s =
     (let c = car s in
      if up (keys s) then
        s\<lparr>car := c\<lparr>lastDirection := 1,
                    speed := min (speed c + acceleration c * dt) (maxSpeed c)\<rparr>\<rparr>
      else if down (keys s) then
        s\<lparr>car := c\<lparr>lastDirection := - 1,
                    speed := max (speed c - acceleration c * dt) (- maxSpeed c)\<rparr>\<rparr>
      else if speed c > 0 then
        s\<lparr>car := c\<lparr>speed := max 0 (speed c - friction c * dt)\<rparr>\<rparr>
      else if speed c < 0 then
        s\<lparr>car := c\<lparr>speed := min 0 (speed c + friction c * dt)\<rparr>\<rparr>
      else s)"

definition steering :: "real \<Rightarrow> game \<Rightarrow> game" where
  \<comment> \<open>"Handle steering"\<close>
  "steering dt s =
     (let c = car s in
      if left (keys s) then
        s\<lparr>car := c\<lparr>steerAngle :=
                      max (steerAngle c - steerChangeRate c * dt) (- maxSteerAngle c)\<rparr>\<rparr>
      else if right (keys s) then
        s\<lparr>car := c\<lparr>steerAngle :=
                      min (steerAngle c + steerChangeRate c * dt) (maxSteerAngle c)\<rparr>\<rparr>
      else s)"

definition heading :: "real \<Rightarrow> game \<Rightarrow> game" where
  \<comment> \<open>"Calculate turning radius and update car angle (only when moving)"\<close>
  "heading dt s =
     (let c = car s in
      if \<bar>speed c\<bar> > 5 / 100 \<and> \<bar>steerAngle c\<bar> > 1 / 100 then
        (let turnRadius = wheelbase c / tan \<bar>steerAngle c\<bar>;
             angularVelocity = speed c / turnRadius
         in if steerAngle c > 0
            then s\<lparr>car := c\<lparr>angle := angle c + angularVelocity * dt\<rparr>\<rparr>
            else s\<lparr>car := c\<lparr>angle := angle c - angularVelocity * dt\<rparr>\<rparr>)
      else s)"

definition advance :: "real \<Rightarrow> game \<Rightarrow> game" where
  \<comment> \<open>"Update position"\<close>
  "advance dt s =
     (let c = car s in
      s\<lparr>car := c\<lparr>pos_x := pos_x c + cos (angle c) * speed c * dt,
                  pos_y := pos_y c + sin (angle c) * speed c * dt\<rparr>\<rparr>)"

definition bodyPolygon :: "'a body_scheme \<Rightarrow> vec list" where
  \<comment> \<open>the call of \<open>getChamferedRectPolygon\<close> made for the car and for each parked car,
      with \<open>collisionInsetX || 0\<close> and \<open>collisionInsetY || 0\<close>\<close>
  "bodyPolygon b =
     getChamferedRectPolygon (pos_x b) (pos_y b) (width b) (height b) (angle b)
       (js_or (collisionInsetX b) 0) (js_or (collisionInsetY b) 0)"

fun firstParkedHit :: "vec list \<Rightarrow> body list \<Rightarrow> (body \<times> vec option) option" where
  \<comment> \<open>the loop over \<open>parkedCars\<close> of \<open>checkCollisions\<close>: the first parked car that the
      player's polygon collides with, and the \<open>mtv\<close> of that result\<close>
  "firstParkedHit playerPoly [] = None"
| "firstParkedHit playerPoly (parkedCar # rest) =
     (let npcPoly = bodyPolygon parkedCar;
          result = polygonCollisionMTV playerPoly npcPoly
      in if collides result then Some (parkedCar, mtv result)
         else firstParkedHit playerPoly rest)"

definition checkCollisions :: "game \<Rightarrow> bool \<times> game" where
  \<comment> \<open>the returned boolean, and the state with \<open>lastCollision\<close> and \<open>collisionMTV\<close> set\<close>
  "checkCollisions s =
     (let playerPoly = bodyPolygon (car s) in
      case firstParkedHit playerPoly (parkedCars s) of
        Some (parkedCar, m) \<Rightarrow>
          (True, s\<lparr>lastCollision := Some (HitCar parkedCar), collisionMTV := m\<rparr>)
      | None \<Rightarrow>
          (let curbPoly = getRectangleCorners (centerX s)
                            (centerY s + curbOffsetY s + curbHeight s / 2)
                            (curbWidth s) (curbHeight s) 0;
               result = polygonCollisionMTV playerPoly curbPoly
           in if collides result
              then (True, s\<lparr>lastCollision := Some HitCurb, collisionMTV := mtv result\<rparr>)
              else (False, s)))"

definition resolveCollision :: "real \<Rightarrow> real \<Rightarrow> real \<Rightarrow> real \<Rightarrow> game \<Rightarrow> game" where
  \<comment> \<open>"Check collisions", with \<open>prevX\<close>, \<open>prevY\<close> stored before the position update;
      \<open>tFlash\<close> and \<open>tBounce\<close> are the two readings of \<open>Date.now()\<close> in the branch\<close>
  "resolveCollision prevX prevY tFlash tBounce s =
     (case checkCollisions s of
        (True, s1) \<Rightarrow>
          (let c = car s1;
               bounceDir =
                 (case collisionMTV s1 of
                    Some m \<Rightarrow> (let len = js_or (hypot (fst m) (snd m)) 1
                               in (- fst m / len, - snd m / len))
                  | None \<Rightarrow> (- cos (angle c), - sin (angle c)))
           in s1\<lparr>car := c\<lparr>pos_x := prevX, pos_y := prevY, speed := 0, collided := True\<rparr>,
                 collisionFlashUntilMs := tFlash + collisionFlashDurationMs s1,
                 collisionBounceDir := bounceDir,
                 collisionBounceUntilMs := tBounce + collisionBounceDurationMs s1\<rparr>)
      | (False, s1) \<Rightarrow> s1\<lparr>car := (car s1)\<lparr>collided := False\<rparr>\<rparr>)"

definition wrapClamp :: "game \<Rightarrow> game" where
  \<comment> \<open>"Horizontal wrap and vertical clamp"\<close>
  "wrapClamp s =
     (let c = car s;
          halfW = width c / 2;
          x1 = (if pos_x c < - halfW then canvasWidth s + halfW
                else if pos_x c > canvasWidth s + halfW then - halfW
                else pos_x c)
      in s\<lparr>car := c\<lparr>pos_x := x1,
                     pos_y := max 45 (min (canvasHeight s - 45) (pos_y c))\<rparr>\<rparr>)"

definition bounce :: "real \<Rightarrow> real \<Rightarrow> game \<Rightarrow> game" where
  \<comment> \<open>"Apply bounce-back impulse if active"; \<open>now\<close> is the reading of \<open>Date.now()\<close>. The two
      tests on \<open>x\<close> after the impulse are consecutive, not alternatives.\<close>
  "bounce dt now s =
     (if now < collisionBounceUntilMs s then
        (let c = car s;
             remaining = collisionBounceUntilMs s - now;
             t = max 0 (min 1 (remaining / collisionBounceDurationMs s));
             scale = t * t;
             v = collisionBounceSpeed s * scale * dt;
             x1 = pos_x c + fst (collisionBounceDir s) * v;
             y1 = pos_y c + snd (collisionBounceDir s) * v;
             halfW2 = width c / 2;
             x2 = (if x1 < - halfW2 then canvasWidth s + halfW2 else x1);
             x3 = (if x2 > canvasWidth s + halfW2 then - halfW2 else x2)
         in s\<lparr>car := c\<lparr>pos_x := x3,
                        pos_y := max 45 (min (canvasHeight s - 45) y1)\<rparr>\<rparr>)
      else s)"

definition updateCar :: "real \<Rightarrow> real \<Rightarrow> real \<Rightarrow> real \<Rightarrow> game \<Rightarrow> game" where
  \<comment> \<open>\<open>tFlash\<close>, \<open>tBounce\<close>, \<open>tImpulse\<close>: the readings of \<open>Date.now()\<close>, in the order of the
      source\<close>
  "updateCar dt tFlash tBounce tImpulse s =
     (if winResetAtMs s \<noteq> None then s\<lparr>car := (car s)\<lparr>speed := 0\<rparr>\<rparr>
      else if isDragging s then
        s\<lparr>car := (car s)\<lparr>
             speed := 0,
             pos_x := max 45 (min (canvasWidth s - 45) (pos_x (car s))),
             pos_y := max 45 (min (canvasHeight s - 45) (pos_y (car s))),
             collided := False\<rparr>\<rparr>
      else
        (let s1 = heading dt (steering dt (throttle dt s));
             prevX = pos_x (car s1);
             prevY = pos_y (car s1);
             s2 = advance dt s1;
             s3 = resolveCollision prevX prevY tFlash tBounce s2
         in bounce dt tImpulse (wrapClamp s3)))"

section \<open>Level manager\<close>

definition js_rem :: "real \<Rightarrow> real \<Rightarrow> real" where
  \<comment> \<open>\<open>a % b\<close>: the remainder whose quotient is truncated towards zero, so that the
      result has the sign of \<open>a\<close>\<close>
  "js_rem a b = a - b * of_int (if 0 \<le> a / b then \<lfloor>a / b\<rfloor> else \<lceil>a / b\<rceil>)"

definition inSpace :: "game \<Rightarrow> bool" where
  "inSpace s =
     (pos_x (car s) > pos_x (parkingSpace s) - width (parkingSpace s) / 2 \<and>
      pos_x (car s) < pos_x (parkingSpace s) + width (parkingSpace s) / 2 \<and>
      pos_y (car s) > pos_y (parkingSpace s) - height (parkingSpace s) / 2 \<and>
      pos_y (car s) < pos_y (parkingSpace s) + height (parkingSpace s) / 2)"

definition wellAligned :: "game \<Rightarrow> bool" where
  "wellAligned s =
     (\<bar>js_rem (angle (car s)) (pi * 2)\<bar> < 2 / 10 \<or>
      \<bar>js_rem (angle (car s)) (pi * 2) - pi * 2\<bar> < 2 / 10)"

definition winCondition :: "game \<Rightarrow> bool" where
  \<comment> \<open>the condition of the first \<open>if\<close> of \<open>checkParking\<close>\<close>
  "winCondition s = (inSpace s \<and> wellAligned s \<and> \<bar>speed (car s)\<bar> < 1 / 10)"

definition latchStep :: "real \<Rightarrow> game \<Rightarrow> game" where
  \<comment> \<open>the first \<open>if\<close>/\<open>else\<close> of \<open>checkParking\<close> (the drawing left out); \<open>now\<close> is the
      reading of \<open>Date.now()\<close> when the timer is started\<close>
  "latchStep now s =
     (if winCondition s then
        (if \<not> winLatched s
         then s\<lparr>winLatched := True, winResetAtMs := Some (now + winResetDelayMs s)\<rparr>
         else s)
      else
        (if winResetAtMs s = None then s\<lparr>winLatched := False\<rparr> else s))"

definition nextLevel :: "game \<Rightarrow> game option" where
  \<comment> \<open>the body of "Handle win delay timer"\<close>
  "nextLevel s =
     (let s1 = s\<lparr>winCount := winCount s + 1,
                 gapBetweenCars := max (minGap s) (gapBetweenCars s - gapStep s)\<rparr>
      in case recomputeParkingLayout s1 of
           None \<Rightarrow> None
         | Some s2 \<Rightarrow>
             Some ((setInitialCarPosition s2)\<lparr>winResetAtMs := None, winLatched := False\<rparr>))"

definition checkParking :: "real \<Rightarrow> real \<Rightarrow> game \<Rightarrow> game option" where
  \<comment> \<open>\<open>tLatch\<close> and \<open>tReset\<close> are the two readings of \<open>Date.now()\<close>\<close>
  "checkParking tLatch tReset s =
     (let s1 = latchStep tLatch s in
      case winResetAtMs s1 of
        Some resetAt \<Rightarrow> if tReset \<ge> resetAt then nextLevel s1 else Some s1
      | None \<Rightarrow> Some s1)"

section \<open>Session driver\<close>

definition gameLoop ::
  "real option \<Rightarrow> real \<Rightarrow> real \<Rightarrow> real \<Rightarrow> real \<Rightarrow> real \<Rightarrow> game \<Rightarrow> game option" where
  \<comment> \<open>One call of \<open>gameLoop\<close>. The argument is \<open>None\<close> for the first call, which has no
      timestamp and only asks for the next frame. Of \<open>render\<close> only \<open>checkParking\<close>
      changes the state. The five times are the readings of \<open>Date.now()\<close> in
      \<open>updateCar\<close> and \<open>checkParking\<close>.\<close>
  "gameLoop timestampMs tFlash tBounce tImpulse tLatch tReset s =
     (case timestampMs of
        None \<Rightarrow> Some s
      | Some ts \<Rightarrow>
          (let lastAt = (case lastFrameAtMs s of None \<Rightarrow> ts | Some l \<Rightarrow> l);
               dt = (ts - lastAt) / 1000;
               s1 = s\<lparr>lastFrameAtMs := Some ts\<rparr>;
               dtSeconds = max 0 (min dt (5 / 100))
           in checkParking tLatch tReset (updateCar dtSeconds tFlash tBounce tImpulse s1)))"

definition isPointerOnCar :: "real \<Rightarrow> real \<Rightarrow> game \<Rightarrow> bool" where
  "isPointerOnCar px py s = pointInPolygon px py (bodyPolygon (car s))"

datatype key = ArrowUp | ArrowDown | ArrowLeft | ArrowRight | KeyD | OtherKey

datatype event =
    KeyDown key
  | KeyUp key
  | MouseDown real real
  | MouseMove real real
  | EndDrag
  | SliderInput real
  | Frame "real option" real real real real real

fun handle :: "event \<Rightarrow> game \<Rightarrow> game option" where
  \<comment> \<open>The listeners of \<open>setupEventListeners\<close> and \<open>initUI\<close>, and the animation frame.
      A mouse event carries the canvas coordinates that \<open>getMousePos\<close> returns;
      \<open>EndDrag\<close> is \<open>mouseup\<close> or \<open>mouseleave\<close>; \<open>SliderInput v\<close> is an input event of
      the gap slider whose value reads as the number \<open>v\<close>.\<close>
  "handle (KeyDown ArrowUp) s = Some (s\<lparr>keys := (keys s)\<lparr>up := True\<rparr>\<rparr>)"
| "handle (KeyDown ArrowDown) s = Some (s\<lparr>keys := (keys s)\<lparr>down := True\<rparr>\<rparr>)"
| "handle (KeyDown ArrowLeft) s = Some (s\<lparr>keys := (keys s)\<lparr>left := True\<rparr>\<rparr>)"
| "handle (KeyDown ArrowRight) s = Some (s\<lparr>keys := (keys s)\<lparr>right := True\<rparr>\<rparr>)"
| "handle (KeyDown KeyD) s = Some (s\<lparr>debug := \<not> debug s\<rparr>)"
| "handle (KeyDown OtherKey) s = Some s"
| "handle (KeyUp ArrowUp) s = Some (s\<lparr>keys := (keys s)\<lparr>up := False\<rparr>\<rparr>)"
| "handle (KeyUp ArrowDown) s = Some (s\<lparr>keys := (keys s)\<lparr>down := False\<rparr>\<rparr>)"
| "handle (KeyUp ArrowLeft) s = Some (s\<lparr>keys := (keys s)\<lparr>left := False\<rparr>\<rparr>)"
| "handle (KeyUp ArrowRight) s = Some (s\<lparr>keys := (keys s)\<lparr>right := False\<rparr>\<rparr>)"
| "handle (KeyUp KeyD) s = Some s"
| "handle (KeyUp OtherKey) s = Some s"
| "handle (MouseDown mx my) s =
     (if isPointerOnCar mx my s
      then Some (s\<lparr>isDragging := True,
                   dragOffsetX := pos_x (car s) - mx,
                   dragOffsetY := pos_y (car s) - my,
                   car := (car s)\<lparr>speed := 0\<rparr>\<rparr>)
      else Some s)"
| "handle (MouseMove mx my) s =
     (if \<not> isDragging s then Some s
      else Some (s\<lparr>car := (car s)\<lparr>
                   pos_x := max 45 (min (canvasWidth s - 45) (mx + dragOffsetX s)),
                   pos_y := max 45 (min (canvasHeight s - 45) (my + dragOffsetY s)),
                   collided := False\<rparr>\<rparr>))"
| "handle EndDrag s = Some (s\<lparr>isDragging := False\<rparr>)"
| "handle (SliderInput v) s = recomputeParkingLayout (s\<lparr>gapBetweenCars := v\<rparr>)"
| "handle (Frame timestampMs tFlash tBounce tImpulse tLatch tReset) s =
     gameLoop timestampMs tFlash tBounce tImpulse tLatch tReset s"

fun run :: "event list \<Rightarrow> game \<Rightarrow> game option" where
  \<comment> \<open>the events in order; an exception ends the run\<close>
  "run [] s = Some s"
| "run (e # es) s = (case handle e s of None \<Rightarrow> None | Some s1 \<Rightarrow> run es s1)"

section \<open>Auxiliary notions\<close>

fun wins :: "nat \<Rightarrow> game \<Rightarrow> game option" where
  \<comment> \<open>\<open>n\<close> level transitions in a row, each the body of "Handle win delay timer"\<close>
  "wins 0 s = Some s"
| "wins (Suc n) s = (case wins n s of None \<Rightarrow> None | Some s1 \<Rightarrow> nextLevel s1)"

definition outsideUpdateCar :: "game \<Rightarrow> game" where
  \<comment> \<open>a state with the fields that \<open>updateCar\<close> assigns blanked out: two states with
      the same image agree on all other fields\<close>
  "outsideUpdateCar s =
     s\<lparr>car := car (construct 0 0), lastCollision := None, collisionMTV := None,
       collisionFlashUntilMs := 0, collisionBounceDir := (0, 0),
       collisionBounceUntilMs := 0\<rparr>"

definition carConstants ::
  "player \<Rightarrow> real \<times> real \<times> real \<times> real \<times> real \<times> real \<times> real \<times> real \<times> real \<times> real" where
  \<comment> \<open>the fields of the car that are written by the constructor only\<close>
  "carConstants c =
     (width c, height c, collisionInsetX c, collisionInsetY c, maxSpeed c, acceleration c,
      friction c, maxSteerAngle c, wheelbase c, steerChangeRate c)"

section \<open>The separating-axis test as the specification words it\<close>

definition spec_overlap :: "vec list \<Rightarrow> vec list \<Rightarrow> vec \<Rightarrow> real" where
  \<comment> \<open>\<open>min(maxA, maxB) - max(minA, minB)\<close>, with the extrema of the projections of the
      vertices on the axis taken as the least and greatest element of a set\<close>
  "spec_overlap pointsA pointsB axis =
     min (Max ((\<lambda>p. dot p axis) ` set pointsA)) (Max ((\<lambda>p. dot p axis) ` set pointsB)) -
     max (Min ((\<lambda>p. dot p axis) ` set pointsA)) (Min ((\<lambda>p. dot p axis) ` set pointsB))"



section \<open>The invariant of the vehicle\<close>

definition withinLimits :: "game \<Rightarrow> bool" where
  \<comment> \<open>the specification's invariant: \<open>|steerAngle| \<le> maxSteerAngle\<close> and
      \<open>|speed| \<le> maxSpeed\<close>\<close>
  "withinLimits s =
     (\<bar>steerAngle (car s)\<bar> \<le> maxSteerAngle (car s) \<and> \<bar>speed (car s)\<bar> \<le> maxSpeed (car s))"

definition okState :: "game \<Rightarrow> bool" where
  \<comment> \<open>what every event preserves: the limits hold, the car's constants are the
      constructor's, and the two parked cars are there\<close>
  "okState s =
     (withinLimits s \<and> carConstants (car s) = carConstants (car (construct 0 0)) \<and>
      2 \<le> length (parkedCars s))"

section \<open>Level progression\<close>

lemma recompute_Some:
  "recomputeParkingLayout s = Some s' \<Longrightarrow>
     gapBetweenCars s' = gapBetweenCars s \<and> minGap s' = minGap s \<and> gapStep s' = gapStep s \<and>
     winCount s' = winCount s \<and> length (parkedCars s') = length (parkedCars s) \<and>
     car s' = car s \<and> winResetAtMs s' = winResetAtMs s \<and> winLatched s' = winLatched s"
  by (auto simp: recomputeParkingLayout_def Let_def split: list.splits)

lemma recompute_defined:
  "2 \<le> length (parkedCars s) \<Longrightarrow> \<exists>s'. recomputeParkingLayout s = Some s'"
  by (cases "parkedCars s"; auto simp add: recomputeParkingLayout_def Let_def split: list.splits)

lemma initial_Some:
  "\<exists>s. initial w h = Some s \<and> gapBetweenCars s = 200 \<and> minGap s = 60 \<and> gapStep s = 20 \<and>
       winCount s = 0 \<and> length (parkedCars s) = 2"
  by (simp add: initial_def recomputeParkingLayout_def setInitialCarPosition_def construct_def
      Let_def)

lemma nextLevel_Some:
  "nextLevel s = Some s' \<Longrightarrow>
     gapBetweenCars s' = max (minGap s) (gapBetweenCars s - gapStep s) \<and>
     minGap s' = minGap s \<and> gapStep s' = gapStep s \<and>
     winCount s' = winCount s + 1 \<and> length (parkedCars s') = length (parkedCars s) \<and>
     winResetAtMs s' = None \<and> \<not> winLatched s'"
  by (auto simp: nextLevel_def Let_def setInitialCarPosition_def split: option.splits
      dest!: recompute_Some)

lemma nextLevel_defined:
  "2 \<le> length (parkedCars s) \<Longrightarrow> \<exists>s'. nextLevel s = Some s'"
  using recompute_defined[of "s\<lparr>winCount := winCount s + 1,
                 gapBetweenCars := max (minGap s) (gapBetweenCars s - gapStep s)\<rparr>"]
  by (auto simp: nextLevel_def Let_def)

lemma latchStep_level [simp]:
  "gapBetweenCars (latchStep t s) = gapBetweenCars s"
  "minGap (latchStep t s) = minGap s"
  "gapStep (latchStep t s) = gapStep s"
  "winCount (latchStep t s) = winCount s"
  "parkedCars (latchStep t s) = parkedCars s"
  "car (latchStep t s) = car s"
  by (simp_all add: latchStep_def)

lemma checkParking_gap:
  assumes "checkParking tLatch tReset a = Some b"
  shows "(winCount b = winCount a \<and> gapBetweenCars b = gapBetweenCars a \<and> minGap b = minGap a) \<or>
         (winCount b = winCount a + 1 \<and> minGap b = minGap a \<and>
          gapBetweenCars b = max (minGap a) (gapBetweenCars a - gapStep a))"
  using assms
  by (auto simp: checkParking_def Let_def split: option.splits if_splits dest!: nextLevel_Some)

text \<open>
  C4. A level transition sets the gap to \<open>max(minGap, gap - gapStep)\<close>, in \<open>checkParking\<close>
  nothing else changes the gap, and from the constructor's values (gap 200, step 20,
  minimum 60) the gap after \<open>n\<close> wins is \<open>max 60 (200 - 20 n)\<close>, which is never below the
  minimum: 60 after 10 wins and still 60 after 11.
\<close>

theorem level_gap_floor:
  assumes "initial w h = Some s0"
  shows "(\<exists>s. wins n s0 = Some s \<and> winCount s = n \<and> minGap s = 60 \<and>
              gapBetweenCars s = max 60 (200 - 20 * real n) \<and> minGap s \<le> gapBetweenCars s) \<and>
         (\<forall>a b tLatch tReset. checkParking tLatch tReset a = Some b \<longrightarrow>
              (winCount b = winCount a \<and> gapBetweenCars b = gapBetweenCars a) \<or>
              (winCount b = winCount a + 1 \<and> minGap b = minGap a \<and> minGap b \<le> gapBetweenCars b \<and>
               gapBetweenCars b = max (minGap a) (gapBetweenCars a - gapStep a)))"
proof (rule conjI)
  from assms initial_Some[of w h]
  have s0: "gapBetweenCars s0 = 200" "minGap s0 = 60" "gapStep s0 = 20" "winCount s0 = 0"
    "length (parkedCars s0) = 2" by auto
  have "\<exists>s. wins n s0 = Some s \<and> winCount s = n \<and> minGap s = 60 \<and> gapStep s = 20 \<and>
            length (parkedCars s) = 2 \<and> gapBetweenCars s = max 60 (200 - 20 * real n)"
  proof (induction n)
    case 0
    then show ?case using s0 by simp
  next
    case (Suc n)
    then obtain s where s: "wins n s0 = Some s" "winCount s = n" "minGap s = 60"
      "gapStep s = 20" "length (parkedCars s) = 2"
      "gapBetweenCars s = max 60 (200 - 20 * real n)" by blast
    from nextLevel_defined[of s] s obtain s' where s': "nextLevel s = Some s'" by auto
    from nextLevel_Some[OF s'] s show ?case using s' by (auto simp: max_def)
  qed
  then show "\<exists>s. wins n s0 = Some s \<and> winCount s = n \<and> minGap s = 60 \<and>
              gapBetweenCars s = max 60 (200 - 20 * real n) \<and> minGap s \<le> gapBetweenCars s"
    by auto
next
  show "\<forall>a b tLatch tReset. checkParking tLatch tReset a = Some b \<longrightarrow>
              (winCount b = winCount a \<and> gapBetweenCars b = gapBetweenCars a) \<or>
              (winCount b = winCount a + 1 \<and> minGap b = minGap a \<and> minGap b \<le> gapBetweenCars b \<and>
               gapBetweenCars b = max (minGap a) (gapBetweenCars a - gapStep a))"
    using checkParking_gap by fastforce
qed

theorem level_gap_floor_witness:
  "\<exists>s0. initial 800 600 = Some s0 \<and>
        (\<exists>s. wins 10 s0 = Some s \<and> winCount s = 10 \<and> gapBetweenCars s = 60) \<and>
        (\<exists>s. wins 11 s0 = Some s \<and> winCount s = 11 \<and> gapBetweenCars s = 60)"
proof -
  from initial_Some[of 800 600] obtain s0 where s0: "initial 800 600 = Some s0" by blast
  from level_gap_floor[OF s0, of 10] level_gap_floor[OF s0, of 11] s0
  show ?thesis by auto
qed

lemma js_rem_pi: "js_rem pi (pi * 2) = pi"
proof -
  have "pi / (pi * 2) = 1 / 2" by simp
  then show ?thesis by (simp add: js_rem_def)
qed

lemma not_aligned_pi: "angle (car s) = pi \<Longrightarrow> \<not> wellAligned s"
  using pi_ge_two by (simp add: wellAligned_def js_rem_pi)

lemma latchStep_no_win:
  "\<not> winCondition s \<Longrightarrow>
     latchStep t s = (if winResetAtMs s = None then s\<lparr>winLatched := False\<rparr> else s)"
  by (simp add: latchStep_def)

text \<open>
  C6. With the heading equal to \<open>pi\<close> the alignment test fails (\<open>pi % 2 pi\<close> is \<open>pi\<close>, at
  distance \<open>pi\<close> from both \<open>0\<close> and \<open>2 pi\<close>), so the win condition is false wherever the car
  is and whatever its speed, and \<open>checkParking\<close> sets no latch and starts no timer: a
  latch or a pending reset after the call was there before it.
\<close>

theorem reversed_heading_not_win:
  assumes "angle (car s) = pi"
  shows "\<not> winCondition s \<and>
         (\<forall>b tLatch tReset. checkParking tLatch tReset s = Some b \<longrightarrow>
            (winLatched b \<longrightarrow> winLatched s) \<and>
            (winResetAtMs b \<noteq> None \<longrightarrow> winResetAtMs b = winResetAtMs s) \<and>
            (winResetAtMs s = None \<longrightarrow> \<not> winLatched b \<and> winCount b = winCount s))"
proof (intro conjI allI impI)
  show nw: "\<not> winCondition s"
    using not_aligned_pi[OF assms] by (simp add: winCondition_def)
  fix b tLatch tReset
  assume cp: "checkParking tLatch tReset s = Some b"
  show "winLatched b \<Longrightarrow> winLatched s"
    using cp nextLevel_Some[of "latchStep tLatch s" b]
    by (cases "winResetAtMs s")
      (auto simp: checkParking_def latchStep_no_win[OF nw] split: if_splits)
  show "winResetAtMs b \<noteq> None \<Longrightarrow> winResetAtMs b = winResetAtMs s"
    using cp nextLevel_Some[of "latchStep tLatch s" b]
    by (cases "winResetAtMs s")
      (auto simp: checkParking_def latchStep_no_win[OF nw] split: if_splits)
  show "winResetAtMs s = None \<Longrightarrow> \<not> winLatched b"
    using cp by (auto simp: checkParking_def latchStep_no_win[OF nw])
  show "winResetAtMs s = None \<Longrightarrow> winCount b = winCount s"
    using cp by (auto simp: checkParking_def latchStep_no_win[OF nw])
qed

theorem reversed_heading_not_win_witness:
  "(let s = (construct 800 600)\<lparr>car := (car (construct 800 600))\<lparr>
               angle := pi, pos_x := 400, pos_y := 300\<rparr>\<rparr>
    in angle (car s) = pi \<and> inSpace s \<and> \<bar>speed (car s)\<bar> < 1 / 10 \<and> \<not> winCondition s \<and>
       (\<exists>b. checkParking 0 0 s = Some b \<and> \<not> winLatched b \<and> winResetAtMs b = None))"
proof -
  define s where "s = (construct 800 600)\<lparr>car := (car (construct 800 600))\<lparr>
               angle := pi, pos_x := 400, pos_y := 300\<rparr>\<rparr>"
  have a: "angle (car s) = pi" by (simp add: s_def)
  have i: "inSpace s" by (simp add: s_def inSpace_def construct_def)
  have v: "\<bar>speed (car s)\<bar> < 1 / 10" by (simp add: s_def construct_def)
  have r: "winResetAtMs s = None" by (simp add: s_def construct_def)
  from reversed_heading_not_win[OF a] have nw: "\<not> winCondition s"
    and cp: "\<And>b. checkParking 0 0 s = Some b \<Longrightarrow> \<not> winLatched b" using r by auto
  have "checkParking 0 0 s = Some (s\<lparr>winLatched := False\<rparr>)"
    using nw r by (simp add: checkParking_def latchStep_def)
  with cp a i v nw r show ?thesis unfolding s_def[symmetric] Let_def by auto
qed



lemma outside_update [simp]:
  "outsideUpdateCar (s\<lparr>car := c\<rparr>) = outsideUpdateCar s"
  "outsideUpdateCar (s\<lparr>lastCollision := l\<rparr>) = outsideUpdateCar s"
  "outsideUpdateCar (s\<lparr>collisionMTV := m\<rparr>) = outsideUpdateCar s"
  "outsideUpdateCar (s\<lparr>collisionFlashUntilMs := f\<rparr>) = outsideUpdateCar s"
  "outsideUpdateCar (s\<lparr>collisionBounceDir := d\<rparr>) = outsideUpdateCar s"
  "outsideUpdateCar (s\<lparr>collisionBounceUntilMs := u\<rparr>) = outsideUpdateCar s"
  by (simp_all add: outsideUpdateCar_def)

lemma outside_checkCollisions [simp]:
  "outsideUpdateCar (snd (checkCollisions s)) = outsideUpdateCar s"
  by (simp add: checkCollisions_def Let_def split: option.splits prod.splits)

lemma resolveCollision_cases:
  "resolveCollision prevX prevY tFlash tBounce s =
     (let s1 = snd (checkCollisions s) in
      if fst (checkCollisions s) then
        s1\<lparr>car := (car s1)\<lparr>pos_x := prevX, pos_y := prevY, speed := 0, collided := True\<rparr>,
           collisionFlashUntilMs := tFlash + collisionFlashDurationMs s1,
           collisionBounceDir :=
             (case collisionMTV s1 of
                Some m \<Rightarrow> (- fst m / js_or (hypot (fst m) (snd m)) 1,
                            - snd m / js_or (hypot (fst m) (snd m)) 1)
              | None \<Rightarrow> (- cos (angle (car s1)), - sin (angle (car s1)))),
           collisionBounceUntilMs := tBounce + collisionBounceDurationMs s1\<rparr>
      else s1\<lparr>car := (car s1)\<lparr>collided := False\<rparr>\<rparr>)"
  by (cases "checkCollisions s"; cases "fst (checkCollisions s)"; cases "collisionMTV (snd (checkCollisions s))")
     (simp_all add: resolveCollision_def Let_def)

lemma outside_resolveCollision [simp]:
  "outsideUpdateCar (resolveCollision px py tf tb s) = outsideUpdateCar s"
  by (simp add: resolveCollision_cases Let_def)


lemma outside_throttle [simp]: "outsideUpdateCar (throttle dt s) = outsideUpdateCar s"
  by (simp add: throttle_def Let_def)

lemma outside_steering [simp]: "outsideUpdateCar (steering dt s) = outsideUpdateCar s"
  by (simp add: steering_def Let_def)

lemma outside_heading [simp]: "outsideUpdateCar (heading dt s) = outsideUpdateCar s"
  by (simp add: heading_def Let_def)

lemma outside_advance [simp]: "outsideUpdateCar (advance dt s) = outsideUpdateCar s"
  by (simp add: advance_def Let_def)

lemma outside_wrapClamp [simp]: "outsideUpdateCar (wrapClamp s) = outsideUpdateCar s"
  by (simp add: wrapClamp_def Let_def)

lemma outside_bounce [simp]: "outsideUpdateCar (bounce dt t s) = outsideUpdateCar s"
  unfolding bounce_def Let_def by (simp only: outside_update if_distrib[of outsideUpdateCar] if_cancel)

lemma outside_updateCar [simp]:
  "outsideUpdateCar (updateCar dt tf tb ti s) = outsideUpdateCar s"
  by (simp add: updateCar_def Let_def)

lemma outside_fields:
  assumes "outsideUpdateCar a = outsideUpdateCar b"
  shows "winLatched a = winLatched b" "winResetAtMs a = winResetAtMs b"
    "winCount a = winCount b" "parkedCars a = parkedCars b"
    "gapBetweenCars a = gapBetweenCars b" "minGap a = minGap b" "gapStep a = gapStep b"
    "parkingSpace a = parkingSpace b" "isDragging a = isDragging b" "keys a = keys b"
    "canvasWidth a = canvasWidth b" "canvasHeight a = canvasHeight b"
    "collisionBounceDurationMs a = collisionBounceDurationMs b"
    "collisionBounceSpeed a = collisionBounceSpeed b"
    "collisionFlashDurationMs a = collisionFlashDurationMs b"
    "lastFrameAtMs a = lastFrameAtMs b"
    "centerX a = centerX b" "centerY a = centerY b" "curbWidth a = curbWidth b"
    "curbHeight a = curbHeight b" "curbOffsetY a = curbOffsetY b"
    "laneGapFromCurb a = laneGapFromCurb b" "winResetDelayMs a = winResetDelayMs b"
proof -
  have f: "(\<And>s. g (outsideUpdateCar s) = g s) \<Longrightarrow> g a = g b" for g :: "game \<Rightarrow> 'x"
    using assms by metis
  show "winLatched a = winLatched b" by (rule f) (simp add: outsideUpdateCar_def)
  show "winResetAtMs a = winResetAtMs b" by (rule f) (simp add: outsideUpdateCar_def)
  show "winCount a = winCount b" by (rule f) (simp add: outsideUpdateCar_def)
  show "parkedCars a = parkedCars b" by (rule f) (simp add: outsideUpdateCar_def)
  show "gapBetweenCars a = gapBetweenCars b" by (rule f) (simp add: outsideUpdateCar_def)
  show "minGap a = minGap b" by (rule f) (simp add: outsideUpdateCar_def)
  show "gapStep a = gapStep b" by (rule f) (simp add: outsideUpdateCar_def)
  show "parkingSpace a = parkingSpace b" by (rule f) (simp add: outsideUpdateCar_def)
  show "isDragging a = isDragging b" by (rule f) (simp add: outsideUpdateCar_def)
  show "keys a = keys b" by (rule f) (simp add: outsideUpdateCar_def)
  show "canvasWidth a = canvasWidth b" by (rule f) (simp add: outsideUpdateCar_def)
  show "canvasHeight a = canvasHeight b" by (rule f) (simp add: outsideUpdateCar_def)
  show "collisionBounceDurationMs a = collisionBounceDurationMs b"
    by (rule f) (simp add: outsideUpdateCar_def)
  show "collisionBounceSpeed a = collisionBounceSpeed b"
    by (rule f) (simp add: outsideUpdateCar_def)
  show "collisionFlashDurationMs a = collisionFlashDurationMs b"
    by (rule f) (simp add: outsideUpdateCar_def)
  show "lastFrameAtMs a = lastFrameAtMs b" by (rule f) (simp add: outsideUpdateCar_def)
  show "centerX a = centerX b" by (rule f) (simp add: outsideUpdateCar_def)
  show "centerY a = centerY b" by (rule f) (simp add: outsideUpdateCar_def)
  show "curbWidth a = curbWidth b" by (rule f) (simp add: outsideUpdateCar_def)
  show "curbHeight a = curbHeight b" by (rule f) (simp add: outsideUpdateCar_def)
  show "curbOffsetY a = curbOffsetY b" by (rule f) (simp add: outsideUpdateCar_def)
  show "laneGapFromCurb a = laneGapFromCurb b" by (rule f) (simp add: outsideUpdateCar_def)
  show "winResetDelayMs a = winResetDelayMs b" by (rule f) (simp add: outsideUpdateCar_def)
qed

lemmas updateCar_fields [simp] = outside_fields[OF outside_updateCar]


lemma latchStep_pending:
  "winLatched s \<Longrightarrow> winResetAtMs s \<noteq> None \<Longrightarrow> latchStep t s = s"
  by (simp add: latchStep_def)

lemma checkParking_pending:
  "winLatched s \<Longrightarrow> winResetAtMs s = Some r \<Longrightarrow>
     checkParking tL tR s = (if r \<le> tR then nextLevel s else Some s)"
  by (simp add: checkParking_def latchStep_pending)

lemma checkParking_unlatch:
  assumes "checkParking tL tR a = Some b" "winLatched a" "\<not> winLatched b"
  shows "winResetAtMs b = None"
proof (cases "winResetAtMs (latchStep tL a)")
  case None
  then show ?thesis using assms by (simp add: checkParking_def)
next
  case (Some r)
  show ?thesis
  proof (cases "r \<le> tR")
    case True
    then show ?thesis using assms Some nextLevel_Some[of "latchStep tL a" b]
      by (simp add: checkParking_def)
  next
    case False
    then have "b = latchStep tL a" using assms Some by (simp add: checkParking_def)
    then show ?thesis using assms by (auto simp: latchStep_def split: if_splits)
  qed
qed

lemma gameLoop_Some:
  "gameLoop (Some ts) tf tb ti tL tR s =
     checkParking tL tR
       (updateCar (max 0 (min ((ts - (case lastFrameAtMs s of None \<Rightarrow> ts | Some l \<Rightarrow> l)) / 1000)
                     (5 / 100))) tf tb ti (s\<lparr>lastFrameAtMs := Some ts\<rparr>))"
  by (simp add: gameLoop_def Let_def)

lemma handle_unlatch:
  assumes "handle e a = Some b" "winLatched a" "\<not> winLatched b"
  shows "winResetAtMs b = None"
proof (cases e)
  case (KeyDown k)
  then show ?thesis using assms by (cases k) auto
next
  case (KeyUp k)
  then show ?thesis using assms by (cases k) auto
next
  case (MouseDown mx my)
  then show ?thesis using assms by (auto split: if_splits)
next
  case (MouseMove mx my)
  then show ?thesis using assms by (auto split: if_splits)
next
  case EndDrag
  then show ?thesis using assms by auto
next
  case (SliderInput v)
  then show ?thesis using assms recompute_Some[of "a\<lparr>gapBetweenCars := v\<rparr>" b] by auto
next
  case (Frame tso tf tb ti tL tR)
  show ?thesis
  proof (cases tso)
    case None
    then show ?thesis using assms Frame by (simp add: gameLoop_def)
  next
    case (Some ts)
    then show ?thesis using assms Frame
      by (auto simp: gameLoop_Some elim!: checkParking_unlatch[rotated 2])
  qed
qed

lemma handle_pending_frame:
  assumes "winLatched s" "winResetAtMs s = Some r"
  shows "gameLoop (Some ts) tf tb ti tL tR s =
           (let u = updateCar (max 0 (min ((ts - (case lastFrameAtMs s of None \<Rightarrow> ts | Some l \<Rightarrow> l)) / 1000)
                     (5 / 100))) tf tb ti (s\<lparr>lastFrameAtMs := Some ts\<rparr>)
            in if r \<le> tR then nextLevel u else Some u)"
  using assms by (simp add: gameLoop_Some checkParking_pending Let_def)

lemma handle_pending_other:
  assumes "winLatched s" "winResetAtMs s = Some r" "handle e s = Some b"
    "\<And>ts tf tb ti tL tR. e = Frame (Some ts) tf tb ti tL tR \<Longrightarrow> tR < r"
  shows "winLatched b \<and> winResetAtMs b = Some r \<and> winCount b = winCount s"
proof (cases e)
  case (KeyDown k)
  then show ?thesis using assms by (cases k) auto
next
  case (KeyUp k)
  then show ?thesis using assms by (cases k) auto
next
  case (MouseDown mx my)
  then show ?thesis using assms by (auto split: if_splits)
next
  case (MouseMove mx my)
  then show ?thesis using assms by (auto split: if_splits)
next
  case EndDrag
  then show ?thesis using assms by auto
next
  case (SliderInput v)
  then show ?thesis using assms recompute_Some[of "s\<lparr>gapBetweenCars := v\<rparr>" b] by auto
next
  case (Frame tso tf tb ti tL tR)
  show ?thesis
  proof (cases tso)
    case None
    then show ?thesis using assms Frame by (simp add: gameLoop_def)
  next
    case (Some ts)
    then have "tR < r" using assms(4) Frame by simp
    then show ?thesis using assms(1-3) Frame Some
      by (auto simp: handle_pending_frame Let_def)
  qed
qed

text \<open>
  C7. In a state with the win latched and a reset pending at \<open>resetAt\<close>: a frame whose
  clock reading in \<open>checkParking\<close> has reached \<open>resetAt\<close> performs the level
  transition, whether the win condition still holds or not, and it cannot fail when the
  two parked cars are there; every other event (a key, a drag of the car, the slider, an
  earlier frame) leaves the latch set and the same timestamp pending, so no new timer is
  started. For every state and event, a latch that was set and is cleared leaves no reset
  pending.
\<close>

theorem pending_reset_not_cancelled:
  assumes "winLatched s" and "winResetAtMs s = Some resetAt"
  shows "(\<forall>ts tf tb ti tL tR b.
            handle (Frame (Some ts) tf tb ti tL tR) s = Some b \<and> resetAt \<le> tR \<longrightarrow>
              winCount b = winCount s + 1 \<and> winResetAtMs b = None \<and> \<not> winLatched b) \<and>
         (\<forall>ts tf tb ti tL tR.
            resetAt \<le> tR \<and> 2 \<le> length (parkedCars s) \<longrightarrow>
              handle (Frame (Some ts) tf tb ti tL tR) s \<noteq> None) \<and>
         (\<forall>e b.
            handle e s = Some b \<and>
            (\<forall>ts tf tb ti tL tR. e = Frame (Some ts) tf tb ti tL tR \<longrightarrow> tR < resetAt) \<longrightarrow>
              winLatched b \<and> winResetAtMs b = Some resetAt \<and> winCount b = winCount s) \<and>
         (\<forall>e a b. handle e a = Some b \<and> winLatched a \<and> \<not> winLatched b \<longrightarrow>
              winResetAtMs b = None)"
proof (intro conjI allI impI)
  fix ts tf tb ti tL tR b
  assume a: "handle (Frame (Some ts) tf tb ti tL tR) s = Some b \<and> resetAt \<le> tR"
  define u where "u = updateCar (max 0 (min ((ts - (case lastFrameAtMs s of None \<Rightarrow> ts | Some l \<Rightarrow> l)) / 1000)
                     (5 / 100))) tf tb ti (s\<lparr>lastFrameAtMs := Some ts\<rparr>)"
  from a have g: "gameLoop (Some ts) tf tb ti tL tR s = Some b" and le: "resetAt \<le> tR"
    by simp_all
  have "nextLevel u = Some b"
    using g le unfolding handle_pending_frame[OF assms, of ts tf tb ti tL tR] u_def Let_def
    by simp
  from nextLevel_Some[OF this]
  have "winCount b = winCount u + 1" "winResetAtMs b = None" "\<not> winLatched b" by auto
  moreover have "winCount u = winCount s" by (simp add: u_def)
  ultimately show "winCount b = winCount s + 1" "winResetAtMs b = None" "\<not> winLatched b"
    by auto
next
  fix ts tf tb ti tL tR
  assume a: "resetAt \<le> tR \<and> 2 \<le> length (parkedCars s)"
  define u where "u = updateCar (max 0 (min ((ts - (case lastFrameAtMs s of None \<Rightarrow> ts | Some l \<Rightarrow> l)) / 1000)
                     (5 / 100))) tf tb ti (s\<lparr>lastFrameAtMs := Some ts\<rparr>)"
  have "parkedCars u = parkedCars s" by (simp add: u_def)
  then obtain b where "nextLevel u = Some b" using nextLevel_defined[of u] a by auto
  then show "handle (Frame (Some ts) tf tb ti tL tR) s \<noteq> None"
    using handle_pending_frame[OF assms, of ts tf tb ti tL tR] a by (simp add: u_def Let_def)
next
  fix e b
  assume a: "handle e s = Some b \<and>
            (\<forall>ts tf tb ti tL tR. e = Frame (Some ts) tf tb ti tL tR \<longrightarrow> tR < resetAt)"
  then have "winLatched b \<and> winResetAtMs b = Some resetAt \<and> winCount b = winCount s"
    using handle_pending_other[OF assms, of e b] by blast
  then show "winLatched b" "winResetAtMs b = Some resetAt" "winCount b = winCount s" by auto
next
  fix e a b
  assume "handle e a = Some b \<and> winLatched a \<and> \<not> winLatched b"
  then show "winResetAtMs b = None" using handle_unlatch by blast
qed

theorem pending_reset_not_cancelled_witness:
  "(let s = (construct 800 600)\<lparr>winLatched := True, isDragging := True,
                                   winResetAtMs := Some 1200\<rparr>
    in winLatched s \<and> winResetAtMs s = Some 1200 \<and> \<not> winCondition s \<and>
       (\<exists>b. handle (Frame (Some 16) 1300 1300 1300 1300 1300) s = Some b \<and>
            winCount b = 1 \<and> winResetAtMs b = None \<and> \<not> winLatched b) \<and>
       (\<exists>b. handle (MouseMove 700 500) s = Some b \<and>
            winLatched b \<and> winResetAtMs b = Some 1200 \<and> winCount b = 0))"
proof -
  define s where "s = (construct 800 600)\<lparr>winLatched := True, isDragging := True,
                                   winResetAtMs := Some 1200\<rparr>"
  have l: "winLatched s" and r: "winResetAtMs s = Some 1200" by (simp_all add: s_def)
  have nw: "\<not> winCondition s" by (simp add: s_def winCondition_def inSpace_def construct_def)
  have p: "2 \<le> length (parkedCars s)" and w: "winCount s = 0"
    by (simp_all add: s_def construct_def)
  note t = pending_reset_not_cancelled[OF l r]
  note t1 = t[THEN conjunct1, rule_format, of 16 1300 1300 1300 1300 1300]
  note t2 = t[THEN conjunct2, THEN conjunct1, rule_format, of 1300 16 1300 1300 1300 1300]
  note t3 = t[THEN conjunct2, THEN conjunct2, THEN conjunct1, rule_format,
      of "MouseMove 700 500"]
  from t2 p have "handle (Frame (Some 16) 1300 1300 1300 1300 1300) s \<noteq> None"
    by simp
  then obtain b where b: "handle (Frame (Some 16) 1300 1300 1300 1300 1300) s = Some b"
    by blast
  with t1 w have 1: "winCount b = 1 \<and> winResetAtMs b = None \<and> \<not> winLatched b" by simp
  have "isDragging s" by (simp add: s_def)
  then obtain c where c: "handle (MouseMove 700 500) s = Some c" by simp
  with t3 w have 2: "winLatched c \<and> winResetAtMs c = Some 1200 \<and> winCount c = 0" by simp
  show ?thesis unfolding s_def[symmetric] Let_def using l r nw b 1 c 2 by blast
qed

section \<open>Projections and the separating-axis tests\<close>


lemma projectStep_Some:
  "projectStep ax p (Some a, Some b) = (Some (min (dot p ax) a), Some (max (dot p ax) b))"
  by (simp add: projectStep_def dot_def Let_def min_def max_def)

lemma projectStep_None:
  "projectStep ax p (None, None) = (Some (dot p ax), Some (dot p ax))"
  by (simp add: projectStep_def dot_def Let_def)

lemma fold_projectStep:
  "fold (projectStep ax) ps (Some a, Some b) =
     (Some (Min (insert a ((\<lambda>p. dot p ax) ` set ps))),
      Some (Max (insert b ((\<lambda>p. dot p ax) ` set ps))))"
proof (induction ps arbitrary: a b)
  case Nil
  show ?case by simp
next
  case (Cons p ps)
  have "Min (insert (min (dot p ax) a) ((\<lambda>p. dot p ax) ` set ps)) =
        Min (insert a (insert (dot p ax) ((\<lambda>p. dot p ax) ` set ps)))"
    by (cases "set ps = {}") (simp_all add: min.assoc min.left_commute min.commute)
  moreover have "Max (insert (max (dot p ax) b) ((\<lambda>p. dot p ax) ` set ps)) =
        Max (insert b (insert (dot p ax) ((\<lambda>p. dot p ax) ` set ps)))"
    by (cases "set ps = {}") (simp_all add: max.assoc max.left_commute max.commute)
  ultimately show ?case by (simp add: projectStep_Some Cons.IH)
qed

lemma projectPointsOnAxis_Nil: "projectPointsOnAxis [] ax = (None, None)"
  by (simp add: projectPointsOnAxis_def)

lemma projectPointsOnAxis_nonempty:
  assumes "ps \<noteq> []"
  shows "projectPointsOnAxis ps ax =
           (Some (Min ((\<lambda>p. dot p ax) ` set ps)), Some (Max ((\<lambda>p. dot p ax) ` set ps)))"
proof -
  obtain p qs where ps: "ps = p # qs" using assms by (cases ps) auto
  show ?thesis
    by (simp add: ps projectPointsOnAxis_def projectStep_None fold_projectStep)
qed


lemma axisOverlap_nonempty:
  "A \<noteq> [] \<Longrightarrow> B \<noteq> [] \<Longrightarrow> axisOverlap A B ax = Some (spec_overlap A B ax)"
  by (simp add: axisOverlap_def projectPointsOnAxis_nonempty spec_overlap_def)

lemma axisOverlap_empty:
  "A = [] \<or> B = [] \<Longrightarrow> axisOverlap A B ax = None"
  by (cases "projectPointsOnAxis A ax"; cases "projectPointsOnAxis B ax")
     (auto simp: axisOverlap_def projectPointsOnAxis_Nil split: option.splits)

lemma separated_nonempty:
  assumes "A \<noteq> []" "B \<noteq> []"
  shows "separated A B ax \<longleftrightarrow> spec_overlap A B ax < 0"
proof -
  let ?pa = "(\<lambda>p. dot p ax) ` set A" and ?pb = "(\<lambda>p. dot p ax) ` set B"
  have a: "Min ?pa \<le> Max ?pa" using assms by (simp add: Min_le_iff)
  have b: "Min ?pb \<le> Max ?pb" using assms by (simp add: Min_le_iff)
  have "separated A B ax \<longleftrightarrow> Max ?pa < Min ?pb \<or> Max ?pb < Min ?pa"
    using assms by (simp add: separated_def projectPointsOnAxis_nonempty maxBelowMin_def)
  also have "\<dots> \<longleftrightarrow> spec_overlap A B ax < 0"
    using a b unfolding spec_overlap_def by (auto simp: min_def max_def)
  finally show ?thesis .
qed

lemma separated_empty: "A = [] \<or> B = [] \<Longrightarrow> separated A B ax"
  by (cases "projectPointsOnAxis A ax"; cases "projectPointsOnAxis B ax")
     (auto simp: separated_def projectPointsOnAxis_Nil maxBelowMin_def split: option.splits)

lemma separated_iff:
  "separated A B ax \<longleftrightarrow> (case axisOverlap A B ax of None \<Rightarrow> True | Some v \<Rightarrow> v < 0)"
proof (cases "A = [] \<or> B = []")
  case True
  then show ?thesis by (simp add: separated_empty axisOverlap_empty)
next
  case False
  then show ?thesis by (simp add: separated_nonempty axisOverlap_nonempty)
qed

lemma mtvLoop_None_iff:
  "mtvLoop A B cA cB axes best = None \<longleftrightarrow>
     (\<exists>a\<in>set axes. case axisOverlap A B a of None \<Rightarrow> True | Some v \<Rightarrow> v \<le> 0)"
  by (induction axes arbitrary: best) (auto simp: Let_def split: option.splits)

lemma not_nonpositive:
  "(\<not> (case x of None \<Rightarrow> True | Some v \<Rightarrow> v \<le> (0::real))) =
     (case x of None \<Rightarrow> False | Some v \<Rightarrow> 0 < v)"
  by (cases x) auto

lemma not_negative:
  "(\<not> (case x of None \<Rightarrow> True | Some v \<Rightarrow> v < (0::real))) =
     (case x of None \<Rightarrow> False | Some v \<Rightarrow> 0 \<le> v)"
  by (cases x) auto

lemma collides_iff:
  "collides (polygonCollisionMTV A B) \<longleftrightarrow>
     (\<forall>a\<in>set (getAxes A @ getAxes B).
        case axisOverlap A B a of None \<Rightarrow> False | Some v \<Rightarrow> 0 < v)"
proof -
  have "collides (polygonCollisionMTV A B) \<longleftrightarrow>
        mtvLoop A B (getPolygonCenter A) (getPolygonCenter B) (getAxes A @ getAxes B) None \<noteq> None"
    by (simp add: polygonCollisionMTV_def Let_def split: option.splits)
  also have "\<dots> \<longleftrightarrow> (\<forall>a\<in>set (getAxes A @ getAxes B).
        \<not> (case axisOverlap A B a of None \<Rightarrow> True | Some v \<Rightarrow> v \<le> 0))"
    unfolding mtvLoop_None_iff by blast
  finally show ?thesis unfolding not_nonpositive .
qed

lemma polygonCollision_iff:
  "polygonCollision A B \<longleftrightarrow>
     (\<forall>a\<in>set (getAxes A @ getAxes B).
        case axisOverlap A B a of None \<Rightarrow> False | Some v \<Rightarrow> 0 \<le> v)"
proof -
  have "polygonCollision A B \<longleftrightarrow> (\<forall>a\<in>set (getAxes A @ getAxes B).
        \<not> (case axisOverlap A B a of None \<Rightarrow> True | Some v \<Rightarrow> v < 0))"
    unfolding polygonCollision_def Let_def list_ex_iff separated_iff by blast
  then show ?thesis unfolding not_negative .
qed

text \<open>
  C10. \<open>polygonCollision\<close> and \<open>polygonCollisionMTV\<close> on the same two polygons, with the
  overlap that the code computes on each axis of the union (\<open>None\<close> is \<open>-Infinity\<close>, the
  value for an empty polygon): an axis of negative overlap makes both report no collision,
  positive overlap on all axes makes both report a collision, and when no overlap is
  negative but one is exactly 0 then \<open>polygonCollision\<close> is true while
  \<open>polygonCollisionMTV\<close> has \<open>collides = false\<close>. For non-empty polygons the overlap is
  \<open>min(maxA, maxB) - max(minA, minB)\<close> of the projections.
\<close>

theorem sat_predicates_differ_at_touching:
  "((\<exists>a\<in>set (getAxes A @ getAxes B).
       case axisOverlap A B a of None \<Rightarrow> True | Some v \<Rightarrow> v < 0) \<longrightarrow>
      \<not> polygonCollision A B \<and> \<not> collides (polygonCollisionMTV A B)) \<and>
   ((\<forall>a\<in>set (getAxes A @ getAxes B).
       case axisOverlap A B a of None \<Rightarrow> False | Some v \<Rightarrow> 0 < v) \<longrightarrow>
      polygonCollision A B \<and> collides (polygonCollisionMTV A B)) \<and>
   ((\<forall>a\<in>set (getAxes A @ getAxes B).
       case axisOverlap A B a of None \<Rightarrow> False | Some v \<Rightarrow> 0 \<le> v) \<and>
    (\<exists>a\<in>set (getAxes A @ getAxes B). axisOverlap A B a = Some 0) \<longrightarrow>
      polygonCollision A B \<and> \<not> collides (polygonCollisionMTV A B)) \<and>
   (A \<noteq> [] \<and> B \<noteq> [] \<longrightarrow>
      (\<forall>a. axisOverlap A B a = Some (spec_overlap A B a)))"
proof (intro conjI impI)
  let ?S = "set (getAxes A @ getAxes B)"
  {
    assume "\<exists>a\<in>?S. case axisOverlap A B a of None \<Rightarrow> True | Some v \<Rightarrow> v < 0"
    then obtain a where a: "a \<in> ?S"
      "case axisOverlap A B a of None \<Rightarrow> True | Some v \<Rightarrow> v < 0" by blast
    then have n1: "\<not> (case axisOverlap A B a of None \<Rightarrow> False | Some v \<Rightarrow> 0 \<le> v)"
      and n2: "\<not> (case axisOverlap A B a of None \<Rightarrow> False | Some v \<Rightarrow> 0 < v)"
      by (auto split: option.splits)
    show "\<not> polygonCollision A B" unfolding polygonCollision_iff using a(1) n1 by blast
    show "\<not> collides (polygonCollisionMTV A B)" unfolding collides_iff using a(1) n2 by blast
  }
  {
    assume h: "\<forall>a\<in>?S. case axisOverlap A B a of None \<Rightarrow> False | Some v \<Rightarrow> 0 < v"
    then show "collides (polygonCollisionMTV A B)" unfolding collides_iff .
    have "\<And>x. (case x of None \<Rightarrow> False | Some v \<Rightarrow> (0::real) < v) \<Longrightarrow>
              (case x of None \<Rightarrow> False | Some v \<Rightarrow> 0 \<le> v)"
      by (auto split: option.splits)
    with h show "polygonCollision A B" unfolding polygonCollision_iff by blast
  }
  {
    assume h: "(\<forall>a\<in>?S. case axisOverlap A B a of None \<Rightarrow> False | Some v \<Rightarrow> 0 \<le> v) \<and>
               (\<exists>a\<in>?S. axisOverlap A B a = Some 0)"
    then show "polygonCollision A B" unfolding polygonCollision_iff by blast
    from h obtain a where a: "a \<in> ?S" "axisOverlap A B a = Some 0" by blast
    then have "\<not> (case axisOverlap A B a of None \<Rightarrow> False | Some v \<Rightarrow> 0 < v)" by simp
    then show "\<not> collides (polygonCollisionMTV A B)" unfolding collides_iff using a(1) by blast
  }
  {
    assume "A \<noteq> [] \<and> B \<noteq> []"
    then show "\<forall>a. axisOverlap A B a = Some (spec_overlap A B a)"
      by (simp add: axisOverlap_nonempty)
  }
qed


lemma hypot_axis [simp]: "hypot 0 b = \<bar>b\<bar>" "hypot a 0 = \<bar>a\<bar>"
  by (simp_all add: hypot_def)

lemma getAxes_rotate1:
  "getAxes ps = map (\<lambda>(p, q). edgeAxis p q) (zip ps (rotate1 ps))"
proof (rule nth_equalityI)
  show "length (getAxes ps) = length (map (\<lambda>(p, q). edgeAxis p q) (zip ps (rotate1 ps)))"
    by (simp add: getAxes_def)
next
  fix i
  assume "i < length (getAxes ps)"
  then have i: "i < length ps" by (simp add: getAxes_def)
  then show "getAxes ps ! i = map (\<lambda>(p, q). edgeAxis p q) (zip ps (rotate1 ps)) ! i"
    by (simp add: getAxes_def nth_rotate1)
qed

lemma axes_unit_square:
  "getAxes [(x, y), (x + 1, y), (x + 1, y + 1), (x, y + 1)] =
     [(0, 1), (- 1, 0), (0, - 1), (1, 0)]"
  by (simp add: getAxes_rotate1 edgeAxis_def js_or_def)

theorem sat_predicates_differ_at_touching_witness:
  "(getAxes [(0, 0), (1, 0), (1, 1), (0, 1)] @ getAxes [(1, 0), (2, 0), (2, 1), (1, 1)] =
      [(0, 1), (- 1, 0), (0, - 1), (1, 0), (0, 1), (- 1, 0), (0, - 1), (1, 0)] \<and>
    axisOverlap [(0, 0), (1, 0), (1, 1), (0, 1)] [(1, 0), (2, 0), (2, 1), (1, 1)] (0, 1) = Some 1 \<and>
    axisOverlap [(0, 0), (1, 0), (1, 1), (0, 1)] [(1, 0), (2, 0), (2, 1), (1, 1)] (- 1, 0) = Some 0 \<and>
    axisOverlap [(0, 0), (1, 0), (1, 1), (0, 1)] [(1, 0), (2, 0), (2, 1), (1, 1)] (0, - 1) = Some 1 \<and>
    axisOverlap [(0, 0), (1, 0), (1, 1), (0, 1)] [(1, 0), (2, 0), (2, 1), (1, 1)] (1, 0) = Some 0 \<and>
    polygonCollision [(0, 0), (1, 0), (1, 1), (0, 1)] [(1, 0), (2, 0), (2, 1), (1, 1)] \<and>
    \<not> collides (polygonCollisionMTV [(0, 0), (1, 0), (1, 1), (0, 1)]
                   [(1, 0), (2, 0), (2, 1), (1, 1)])) \<and>
   (axisOverlap [(0, 0), (1, 0), (1, 1), (0, 1)] [(3, 0), (4, 0), (4, 1), (3, 1)] (1, 0) = Some (- 2) \<and>
    \<not> polygonCollision [(0, 0), (1, 0), (1, 1), (0, 1)] [(3, 0), (4, 0), (4, 1), (3, 1)] \<and>
    \<not> collides (polygonCollisionMTV [(0, 0), (1, 0), (1, 1), (0, 1)]
                   [(3, 0), (4, 0), (4, 1), (3, 1)])) \<and>
   (getAxes [(0, 0), (1, 0), (1, 1), (0, 1)] @
      getAxes [(1 / 2, 0), (3 / 2, 0), (3 / 2, 1), (1 / 2, 1)] =
      [(0, 1), (- 1, 0), (0, - 1), (1, 0), (0, 1), (- 1, 0), (0, - 1), (1, 0)] \<and>
    axisOverlap [(0, 0), (1, 0), (1, 1), (0, 1)]
      [(1 / 2, 0), (3 / 2, 0), (3 / 2, 1), (1 / 2, 1)] (0, 1) = Some 1 \<and>
    axisOverlap [(0, 0), (1, 0), (1, 1), (0, 1)]
      [(1 / 2, 0), (3 / 2, 0), (3 / 2, 1), (1 / 2, 1)] (- 1, 0) = Some (1 / 2) \<and>
    axisOverlap [(0, 0), (1, 0), (1, 1), (0, 1)]
      [(1 / 2, 0), (3 / 2, 0), (3 / 2, 1), (1 / 2, 1)] (0, - 1) = Some 1 \<and>
    axisOverlap [(0, 0), (1, 0), (1, 1), (0, 1)]
      [(1 / 2, 0), (3 / 2, 0), (3 / 2, 1), (1 / 2, 1)] (1, 0) = Some (1 / 2) \<and>
    polygonCollision [(0, 0), (1, 0), (1, 1), (0, 1)]
      [(1 / 2, 0), (3 / 2, 0), (3 / 2, 1), (1 / 2, 1)] \<and>
    collides (polygonCollisionMTV [(0, 0), (1, 0), (1, 1), (0, 1)]
                [(1 / 2, 0), (3 / 2, 0), (3 / 2, 1), (1 / 2, 1)]))"
proof -
  let ?A = "[(0, 0), (1, 0), (1, 1), (0, 1)] :: vec list"
  let ?B = "[(1, 0), (2, 0), (2, 1), (1, 1)] :: vec list"
  let ?C = "[(3, 0), (4, 0), (4, 1), (3, 1)] :: vec list"
  let ?D = "[(1 / 2, 0), (3 / 2, 0), (3 / 2, 1), (1 / 2, 1)] :: vec list"
  have axA: "getAxes ?A = [(0, 1), (- 1, 0), (0, - 1), (1, 0)]"
    using axes_unit_square[of 0 0] by simp
  have axB: "getAxes ?B = [(0, 1), (- 1, 0), (0, - 1), (1, 0)]"
    using axes_unit_square[of 1 0] by simp
  have axC: "getAxes ?C = [(0, 1), (- 1, 0), (0, - 1), (1, 0)]"
    using axes_unit_square[of 3 0] by simp
  have axD: "getAxes ?D = [(0, 1), (- 1, 0), (0, - 1), (1, 0)]"
    using axes_unit_square[of "1 / 2" 0] by simp
  have ovB: "axisOverlap ?A ?B (0, 1) = Some 1" "axisOverlap ?A ?B (- 1, 0) = Some 0"
    "axisOverlap ?A ?B (0, - 1) = Some 1" "axisOverlap ?A ?B (1, 0) = Some 0"
    by (simp_all add: axisOverlap_def projectPointsOnAxis_def projectStep_def)
  have ovC: "axisOverlap ?A ?C (1, 0) = Some (- 2)"
    by (simp add: axisOverlap_def projectPointsOnAxis_def projectStep_def)
  have ovD: "axisOverlap ?A ?D (0, 1) = Some 1" "axisOverlap ?A ?D (- 1, 0) = Some (1 / 2)"
    "axisOverlap ?A ?D (0, - 1) = Some 1" "axisOverlap ?A ?D (1, 0) = Some (1 / 2)"
    by (simp_all add: axisOverlap_def projectPointsOnAxis_def projectStep_def)
  have hB: "(\<forall>a\<in>set (getAxes ?A @ getAxes ?B).
       case axisOverlap ?A ?B a of None \<Rightarrow> False | Some v \<Rightarrow> 0 \<le> v) \<and>
    (\<exists>a\<in>set (getAxes ?A @ getAxes ?B). axisOverlap ?A ?B a = Some 0)"
    by (simp add: axA axB ovB)
  have hC: "\<exists>a\<in>set (getAxes ?A @ getAxes ?C).
       case axisOverlap ?A ?C a of None \<Rightarrow> True | Some v \<Rightarrow> v < 0"
    by (simp add: axA axC ovC)
  have hD: "\<forall>a\<in>set (getAxes ?A @ getAxes ?D).
       case axisOverlap ?A ?D a of None \<Rightarrow> False | Some v \<Rightarrow> 0 < v"
    by (simp add: axA axD ovD)
  note tB = sat_predicates_differ_at_touching[of ?A ?B, THEN conjunct2, THEN conjunct2,
      THEN conjunct1, THEN mp, OF hB]
  note tC = sat_predicates_differ_at_touching[of ?A ?C, THEN conjunct1, THEN mp, OF hC]
  note tD = sat_predicates_differ_at_touching[of ?A ?D, THEN conjunct2, THEN conjunct1,
      THEN mp, OF hD]
  have axAB: "getAxes ?A @ getAxes ?B =
      [(0, 1), (- 1, 0), (0, - 1), (1, 0), (0, 1), (- 1, 0), (0, - 1), (1, 0)]"
    and axAD: "getAxes ?A @ getAxes ?D =
      [(0, 1), (- 1, 0), (0, - 1), (1, 0), (0, 1), (- 1, 0), (0, - 1), (1, 0)]"
    by (simp_all only: axA axB axD append.simps)
  from axAB axAD ovB tB ovC tC ovD tD show ?thesis by blast
qed













lemma chamfer_zero_inset:
  "getChamferedRectPolygon x y w h a 0 0 =
     [getRectangleCorners x y w h a ! 0, getRectangleCorners x y w h a ! 1,
      getRectangleCorners x y w h a ! 1, getRectangleCorners x y w h a ! 2,
      getRectangleCorners x y w h a ! 2, getRectangleCorners x y w h a ! 3,
      getRectangleCorners x y w h a ! 3, getRectangleCorners x y w h a ! 0]"
  by (simp add: getChamferedRectPolygon_def getRectangleCorners_def Let_def)

lemma corners_list:
  "getRectangleCorners x y w h a =
     [getRectangleCorners x y w h a ! 0, getRectangleCorners x y w h a ! 1,
      getRectangleCorners x y w h a ! 2, getRectangleCorners x y w h a ! 3]"
  by (simp add: getRectangleCorners_def Let_def)

lemma corners_and_chamfer:
  "\<exists>c0 c1 c2 c3. getRectangleCorners x y w h a = [c0, c1, c2, c3] \<and>
     getChamferedRectPolygon x y w h a 0 0 = [c0, c1, c1, c2, c2, c3, c3, c0]"
  by (simp add: getChamferedRectPolygon_def getRectangleCorners_def Let_def)

lemma edgeAxis_same [simp]: "edgeAxis p p = (0, 0)"
  by (simp add: edgeAxis_def js_or_def)

lemma axes_doubled:
  "getAxes [c0, c1, c1, c2, c2, c3, c3, c0] =
     [edgeAxis c0 c1, (0, 0), edgeAxis c1 c2, (0, 0), edgeAxis c2 c3, (0, 0),
      edgeAxis c3 c0, (0, 0)]"
  by (simp add: getAxes_rotate1)

lemma axes_four:
  "getAxes [c0, c1, c2, c3] = [edgeAxis c0 c1, edgeAxis c1 c2, edgeAxis c2 c3, edgeAxis c3 c0]"
  by (simp add: getAxes_rotate1)

lemma spec_overlap_zero_axis:
  assumes "A \<noteq> []" "B \<noteq> []"
  shows "spec_overlap A B (0, 0) = 0"
proof -
  have "set A \<noteq> {}" "set B \<noteq> {}" using assms by simp_all
  then have "(\<lambda>p. dot p (0, 0)) ` set A = {0}" "(\<lambda>p. dot p (0, 0)) ` set B = {0}"
    by (simp_all add: dot_def image_constant_conv)
  then show ?thesis by (simp add: spec_overlap_def)
qed

lemma spec_overlap_set:
  "set A = set A' \<Longrightarrow> set B = set B' \<Longrightarrow> spec_overlap A B ax = spec_overlap A' B' ax"
  by (simp add: spec_overlap_def)

lemma spec_overlap_self:
  assumes "A \<noteq> []"
  shows "0 \<le> spec_overlap A A ax"
  using assms by (simp add: spec_overlap_def Min_le_iff)

lemma zero_inset_collision_eq:
  "polygonCollision (getChamferedRectPolygon x1 y1 w1 h1 a1 0 0)
      (getChamferedRectPolygon x2 y2 w2 h2 a2 0 0) =
   rectangleCollision x1 y1 w1 h1 a1 x2 y2 w2 h2 a2"
proof -
  let ?R1 = "getRectangleCorners x1 y1 w1 h1 a1" and ?R2 = "getRectangleCorners x2 y2 w2 h2 a2"
  let ?P1 = "getChamferedRectPolygon x1 y1 w1 h1 a1 0 0"
  let ?P2 = "getChamferedRectPolygon x2 y2 w2 h2 a2 0 0"
  have ne: "?R1 \<noteq> []" "?R2 \<noteq> []" "?P1 \<noteq> []" "?P2 \<noteq> []"
    by (simp_all add: getRectangleCorners_def getChamferedRectPolygon_def Let_def)
  obtain c0 c1 c2 c3 where c: "?R1 = [c0, c1, c2, c3]" "?P1 = [c0, c1, c1, c2, c2, c3, c3, c0]"
    using corners_and_chamfer[of x1 y1 w1 h1 a1] by blast
  obtain d0 d1 d2 d3 where d: "?R2 = [d0, d1, d2, d3]" "?P2 = [d0, d1, d1, d2, d2, d3, d3, d0]"
    using corners_and_chamfer[of x2 y2 w2 h2 a2] by blast
  have s1: "set ?P1 = set ?R1" unfolding c by auto
  have s2: "set ?P2 = set ?R2" unfolding d by auto
  have sep: "separated ?P1 ?P2 ax = separated ?R1 ?R2 ax" for ax
    using ne by (simp add: separated_nonempty spec_overlap_set[OF s1 s2])
  have z: "\<not> separated ?R1 ?R2 (0, 0)"
    using ne by (simp add: separated_nonempty spec_overlap_zero_axis)
  have a1: "set (getAxes ?P1) = insert (0, 0) (set (getAxes ?R1))"
    unfolding c axes_doubled axes_four by auto
  have a2: "set (getAxes ?P2) = insert (0, 0) (set (getAxes ?R2))"
    unfolding d axes_doubled axes_four by auto
  show ?thesis
    unfolding polygonCollision_def rectangleCollision_def Let_def list_ex_iff
    using z by (auto simp: sep a1 a2)
qed

lemma zero_inset_mtv:
  "\<not> collides (polygonCollisionMTV (getChamferedRectPolygon x1 y1 w1 h1 a1 0 0)
                  (getChamferedRectPolygon x2 y2 w2 h2 a2 0 0))"
proof -
  let ?P1 = "getChamferedRectPolygon x1 y1 w1 h1 a1 0 0"
  let ?P2 = "getChamferedRectPolygon x2 y2 w2 h2 a2 0 0"
  have ne: "?P1 \<noteq> []" "?P2 \<noteq> []"
    by (simp_all add: getChamferedRectPolygon_def Let_def)
  have "(0, 0) \<in> set (getAxes ?P1 @ getAxes ?P2)"
    by (simp add: chamfer_zero_inset axes_doubled)
  moreover have "axisOverlap ?P1 ?P2 (0, 0) = Some 0"
    using ne by (simp add: axisOverlap_nonempty spec_overlap_zero_axis)
  ultimately show ?thesis unfolding collides_iff by force
qed

lemma rectangleCollision_self: "rectangleCollision x y w h a x y w h a"
proof -
  have ne: "getRectangleCorners x y w h a \<noteq> []"
    by (simp add: getRectangleCorners_def Let_def)
  have "\<not> separated (getRectangleCorners x y w h a) (getRectangleCorners x y w h a) ax" for ax
    using spec_overlap_self[OF ne, of ax] by (simp add: separated_nonempty[OF ne ne])
  then show ?thesis by (simp add: rectangleCollision_def Let_def list_ex_iff)
qed

text \<open>
  C5. With both insets 0 the chamfered polygon is the list of the four rectangle corners
  with each corner twice, and \<open>polygonCollision\<close> on two such polygons equals
  \<open>rectangleCollision\<close> on the two rectangles. \<open>polygonCollisionMTV\<close>, the test that
  \<open>checkCollisions\<close> uses, does not: the edge between the two copies of a corner has
  length zero, its axis is the zero vector, the overlap on it is 0, and the loop returns
  \<open>{ collides: false }\<close> for every pair, also for a car-sized rectangle tested against
  itself, where \<open>rectangleCollision\<close> is true.
\<close>

theorem zero_inset_chamfer_mtv_misses:
  "getChamferedRectPolygon x1 y1 w1 h1 a1 0 0 =
     [getRectangleCorners x1 y1 w1 h1 a1 ! 0, getRectangleCorners x1 y1 w1 h1 a1 ! 1,
      getRectangleCorners x1 y1 w1 h1 a1 ! 1, getRectangleCorners x1 y1 w1 h1 a1 ! 2,
      getRectangleCorners x1 y1 w1 h1 a1 ! 2, getRectangleCorners x1 y1 w1 h1 a1 ! 3,
      getRectangleCorners x1 y1 w1 h1 a1 ! 3, getRectangleCorners x1 y1 w1 h1 a1 ! 0] \<and>
   length (getRectangleCorners x1 y1 w1 h1 a1) = 4 \<and>
   polygonCollision (getChamferedRectPolygon x1 y1 w1 h1 a1 0 0)
       (getChamferedRectPolygon x2 y2 w2 h2 a2 0 0) =
     rectangleCollision x1 y1 w1 h1 a1 x2 y2 w2 h2 a2 \<and>
   \<not> collides (polygonCollisionMTV (getChamferedRectPolygon x1 y1 w1 h1 a1 0 0)
                  (getChamferedRectPolygon x2 y2 w2 h2 a2 0 0)) \<and>
   rectangleCollision 255 420 90 45 0 255 420 90 45 0 \<and>
   \<not> collides (polygonCollisionMTV (getChamferedRectPolygon 255 420 90 45 0 0 0)
                  (getChamferedRectPolygon 255 420 90 45 0 0 0))"
proof -
  have "length (getRectangleCorners x1 y1 w1 h1 a1) = 4"
    by (simp add: getRectangleCorners_def Let_def)
  then show ?thesis
    using chamfer_zero_inset[of x1 y1 w1 h1 a1]
      zero_inset_collision_eq[of x1 y1 w1 h1 a1 x2 y2 w2 h2 a2]
      zero_inset_mtv[of x1 y1 w1 h1 a1 x2 y2 w2 h2 a2]
      zero_inset_mtv[of 255 420 90 45 0 255 420 90 45 0]
      rectangleCollision_self[of 255 420 90 45 0]
    by blast
qed

section \<open>The blocks of the update\<close>


lemma carConstants_update [simp]:
  "carConstants (c\<lparr>pos_x := a\<rparr>) = carConstants c"
  "carConstants (c\<lparr>pos_y := a\<rparr>) = carConstants c"
  "carConstants (c\<lparr>angle := a\<rparr>) = carConstants c"
  "carConstants (c\<lparr>speed := a\<rparr>) = carConstants c"
  "carConstants (c\<lparr>steerAngle := a\<rparr>) = carConstants c"
  "carConstants (c\<lparr>collided := b\<rparr>) = carConstants c"
  "carConstants (c\<lparr>lastDirection := d\<rparr>) = carConstants c"
  by (simp_all add: carConstants_def)

lemma carConstants_fields:
  assumes "carConstants a = carConstants b"
  shows "width a = width b" "height a = height b"
    "collisionInsetX a = collisionInsetX b" "collisionInsetY a = collisionInsetY b"
    "maxSpeed a = maxSpeed b" "acceleration a = acceleration b" "friction a = friction b"
    "maxSteerAngle a = maxSteerAngle b" "wheelbase a = wheelbase b"
    "steerChangeRate a = steerChangeRate b"
  using assms by (simp_all add: carConstants_def)

lemma throttle_car [simp]:
  "carConstants (car (throttle dt s)) = carConstants (car s)"
  "angle (car (throttle dt s)) = angle (car s)"
  "steerAngle (car (throttle dt s)) = steerAngle (car s)"
  "pos_x (car (throttle dt s)) = pos_x (car s)"
  "pos_y (car (throttle dt s)) = pos_y (car s)"
  by (simp_all add: throttle_def Let_def)

lemma steering_car [simp]:
  "carConstants (car (steering dt s)) = carConstants (car s)"
  "angle (car (steering dt s)) = angle (car s)"
  "speed (car (steering dt s)) = speed (car s)"
  "pos_x (car (steering dt s)) = pos_x (car s)"
  "pos_y (car (steering dt s)) = pos_y (car s)"
  by (simp_all add: steering_def Let_def)

lemma heading_car [simp]:
  "carConstants (car (heading dt s)) = carConstants (car s)"
  "steerAngle (car (heading dt s)) = steerAngle (car s)"
  "speed (car (heading dt s)) = speed (car s)"
  "pos_x (car (heading dt s)) = pos_x (car s)"
  "pos_y (car (heading dt s)) = pos_y (car s)"
  by (simp_all add: heading_def Let_def)

lemma advance_car [simp]:
  "carConstants (car (advance dt s)) = carConstants (car s)"
  "angle (car (advance dt s)) = angle (car s)"
  "steerAngle (car (advance dt s)) = steerAngle (car s)"
  "speed (car (advance dt s)) = speed (car s)"
  by (simp_all add: advance_def Let_def)

lemma checkCollisions_car [simp]: "car (snd (checkCollisions s)) = car s"
  by (simp add: checkCollisions_def Let_def split: option.splits prod.splits)

lemma resolveCollision_car [simp]:
  "carConstants (car (resolveCollision px py tf tb s)) = carConstants (car s)"
  "angle (car (resolveCollision px py tf tb s)) = angle (car s)"
  "steerAngle (car (resolveCollision px py tf tb s)) = steerAngle (car s)"
  by (simp_all add: resolveCollision_cases Let_def)

lemma resolveCollision_hit:
  assumes "fst (checkCollisions s)"
  shows "pos_x (car (resolveCollision px py tf tb s)) = px"
    "pos_y (car (resolveCollision px py tf tb s)) = py"
    "speed (car (resolveCollision px py tf tb s)) = 0"
    "collided (car (resolveCollision px py tf tb s))"
    "collisionBounceUntilMs (resolveCollision px py tf tb s) = tb + collisionBounceDurationMs s"
  using assms outside_fields[OF outside_checkCollisions[of s]]
  by (simp_all add: resolveCollision_cases Let_def)

lemma resolveCollision_miss:
  assumes "\<not> fst (checkCollisions s)"
  shows "pos_x (car (resolveCollision px py tf tb s)) = pos_x (car s)"
    "pos_y (car (resolveCollision px py tf tb s)) = pos_y (car s)"
    "speed (car (resolveCollision px py tf tb s)) = speed (car s)"
    "\<not> collided (car (resolveCollision px py tf tb s))"
  using assms by (simp_all add: resolveCollision_cases Let_def)

lemma wrapClamp_car:
  "\<exists>x y. wrapClamp s = s\<lparr>car := (car s)\<lparr>pos_x := x, pos_y := y\<rparr>\<rparr>"
  unfolding wrapClamp_def Let_def by (intro exI) (rule refl)

lemma bounce_car:
  "\<exists>x y. bounce dt now s = s\<lparr>car := (car s)\<lparr>pos_x := x, pos_y := y\<rparr>\<rparr>"
proof (cases "now < collisionBounceUntilMs s")
  case True
  have "bounce dt now s = s\<lparr>car := (car s)\<lparr>
      pos_x := pos_x (car (bounce dt now s)), pos_y := pos_y (car (bounce dt now s))\<rparr>\<rparr>"
    unfolding bounce_def Let_def by (simp only: True if_True) simp
  then show ?thesis by blast
next
  case False
  have "s = s\<lparr>car := (car s)\<lparr>pos_x := pos_x (car s), pos_y := pos_y (car s)\<rparr>\<rparr>" by simp
  then show ?thesis using False unfolding bounce_def by (simp only: if_False) blast
qed

lemma wrapClamp_kept [simp]:
  "carConstants (car (wrapClamp s)) = carConstants (car s)"
  "angle (car (wrapClamp s)) = angle (car s)"
  "steerAngle (car (wrapClamp s)) = steerAngle (car s)"
  "speed (car (wrapClamp s)) = speed (car s)"
  "collided (car (wrapClamp s)) = collided (car s)"
  "collisionBounceUntilMs (wrapClamp s) = collisionBounceUntilMs s"
  using wrapClamp_car[of s] by auto

lemma bounce_kept [simp]:
  "carConstants (car (bounce dt now s)) = carConstants (car s)"
  "angle (car (bounce dt now s)) = angle (car s)"
  "steerAngle (car (bounce dt now s)) = steerAngle (car s)"
  "speed (car (bounce dt now s)) = speed (car s)"
  "collided (car (bounce dt now s)) = collided (car s)"
  using bounce_car[of dt now s] by auto


lemma updateCar_physics:
  assumes "winResetAtMs s = None" "\<not> isDragging s"
  shows "updateCar dt tf tb ti s =
           bounce dt ti (wrapClamp (resolveCollision (pos_x (car s)) (pos_y (car s)) tf tb
             (advance dt (heading dt (steering dt (throttle dt s))))))"
  using assms by (simp add: updateCar_def Let_def)

lemma heading_angle:
  assumes "5 / 100 < \<bar>speed (car s)\<bar>" "1 / 100 < steerAngle (car s)"
  shows "angle (car (heading dt s)) =
           angle (car s) + speed (car s) * tan (steerAngle (car s)) / wheelbase (car s) * dt"
  using assms by (simp add: heading_def Let_def)

lemma heading_angle_neg:
  assumes "5 / 100 < \<bar>speed (car s)\<bar>" "steerAngle (car s) < - (1 / 100)"
  shows "angle (car (heading dt s)) =
           angle (car s) + speed (car s) * tan (steerAngle (car s)) / wheelbase (car s) * dt"
  using assms by (simp add: heading_def Let_def abs_if)

lemma physics_heading_formula:
  assumes "winResetAtMs s = None" and "\<not> isDragging s"
    and "c = car (steering dt (throttle dt s))"
    and "5 / 100 < \<bar>speed c\<bar>" and "1 / 100 < steerAngle c"
  shows "angle (car (updateCar dt tf tb ti s)) =
           angle (car s) + speed c * tan (steerAngle c) / wheelbase c * dt"
proof -
  let ?s1 = "steering dt (throttle dt s)"
  have a: "angle (car (updateCar dt tf tb ti s)) = angle (car (heading dt ?s1))"
    by (simp add: updateCar_physics[OF assms(1,2)])
  have b: "angle (car (heading dt ?s1)) =
             angle (car s) + speed c * tan (steerAngle c) / wheelbase c * dt"
    using heading_angle[of ?s1 dt] assms(3-5) by simp
  show ?thesis using a b by simp
qed

text \<open>
  C3, as the code has it. In a tick that runs the physics, let \<open>c\<close> be the car after the
  throttle and steering blocks. If \<open>|speed c| > 0.05\<close> and the steer angle is positive
  (above 0.01, below a quarter turn), the heading changes by
  \<open>speed c * tan (steerAngle c) / wheelbase * dt\<close>: it grows when the car moves forward and
  shrinks when it reverses. Reversing inverts the direction of the heading change.
\<close>

theorem heading_change_follows_speed_sign:
  assumes "winResetAtMs s = None" and "\<not> isDragging s"
    and "c = car (steering dt (throttle dt s))"
    and "5 / 100 < \<bar>speed c\<bar>" and "1 / 100 < steerAngle c" and "steerAngle c < pi / 2"
    and "0 < wheelbase c" and "0 < dt"
  shows "angle (car (updateCar dt tf tb ti s)) =
           angle (car s) + speed c * tan (steerAngle c) / wheelbase c * dt \<and>
         (0 < speed c \<longrightarrow> angle (car s) < angle (car (updateCar dt tf tb ti s))) \<and>
         (speed c < 0 \<longrightarrow> angle (car (updateCar dt tf tb ti s)) < angle (car s))"
proof -
  note f = physics_heading_formula[OF assms(1-5), of tf tb ti]
  have t: "0 < tan (steerAngle c)"
    using assms(5,6) by (intro tan_gt_zero) simp_all
  then have k: "0 < tan (steerAngle c) / wheelbase c * dt"
    using assms(7,8) by simp
  have e: "speed c * tan (steerAngle c) / wheelbase c * dt =
           speed c * (tan (steerAngle c) / wheelbase c * dt)" by simp
  have p: "0 < speed c * tan (steerAngle c) / wheelbase c * dt" if "0 < speed c"
    unfolding e using that k by (rule mult_pos_pos)
  have n: "speed c * tan (steerAngle c) / wheelbase c * dt < 0" if "speed c < 0"
    unfolding e using that k by (rule mult_neg_pos)
  show ?thesis using f p n by auto
qed

theorem heading_change_follows_speed_sign_witness:
  "(let s = (construct 800 600)\<lparr>car := (car (construct 800 600))\<lparr>
               speed := - 100, steerAngle := 1 / 2\<rparr>\<rparr>;
        c = car (steering (1 / 50) (throttle (1 / 50) s))
    in winResetAtMs s = None \<and> \<not> isDragging s \<and> speed c = - 94 \<and> steerAngle c = 1 / 2 \<and>
       wheelbase c = 70 \<and>
       angle (car (updateCar (1 / 50) 0 0 0 s)) < angle (car s))"
proof -
  define s where "s = (construct 800 600)\<lparr>car := (car (construct 800 600))\<lparr>
               speed := - 100, steerAngle := 1 / 2\<rparr>\<rparr>"
  define c where "c = car (steering (1 / 50) (throttle (1 / 50) s))"
  have h: "winResetAtMs s = None" "\<not> isDragging s" by (simp_all add: s_def construct_def)
  have v: "speed c = - 94" "steerAngle c = 1 / 2" "wheelbase c = 70"
    by (simp_all add: c_def s_def construct_def throttle_def steering_def Let_def)
  have q: "steerAngle c < pi / 2" using pi_ge_two by (simp add: v)
  from heading_change_follows_speed_sign[OF h c_def _ _ q, of 0 0 0]
  have "angle (car (updateCar (1 / 50) 0 0 0 s)) < angle (car s)" by (simp add: v)
  then show ?thesis unfolding s_def[symmetric] c_def[symmetric] Let_def using h v by simp
qed

text \<open>
  C3, as stated, fails: with the same positive steer angle \<open>1 / 2\<close>, a car moving forward
  at 100 px/s ends the tick with a larger heading and a car reversing at 100 px/s with a
  smaller one.
\<close>

theorem reversing_inverts_heading_change:
  "angle (car ((construct 800 600)\<lparr>car := (car (construct 800 600))\<lparr>
                  speed := 100, steerAngle := 1 / 2\<rparr>\<rparr>))
     < angle (car (updateCar (1 / 50) 0 0 0
                 ((construct 800 600)\<lparr>car := (car (construct 800 600))\<lparr>
                    speed := 100, steerAngle := 1 / 2\<rparr>\<rparr>))) \<and>
   angle (car (updateCar (1 / 50) 0 0 0
                 ((construct 800 600)\<lparr>car := (car (construct 800 600))\<lparr>
                    speed := - 100, steerAngle := 1 / 2\<rparr>\<rparr>)))
     < angle (car ((construct 800 600)\<lparr>car := (car (construct 800 600))\<lparr>
                  speed := - 100, steerAngle := 1 / 2\<rparr>\<rparr>))"
proof -
  define f where "f = (construct 800 600)\<lparr>car := (car (construct 800 600))\<lparr>
               speed := 100, steerAngle := 1 / 2\<rparr>\<rparr>"
  define r where "r = (construct 800 600)\<lparr>car := (car (construct 800 600))\<lparr>
               speed := - 100, steerAngle := 1 / 2\<rparr>\<rparr>"
  define cf where "cf = car (steering (1 / 50) (throttle (1 / 50) f))"
  define cr where "cr = car (steering (1 / 50) (throttle (1 / 50) r))"
  have hf: "winResetAtMs f = None" "\<not> isDragging f"
    and hr: "winResetAtMs r = None" "\<not> isDragging r"
    by (simp_all add: f_def r_def construct_def)
  have vf: "speed cf = 94" "steerAngle cf = 1 / 2" "wheelbase cf = 70"
    by (simp_all add: cf_def f_def construct_def throttle_def steering_def Let_def)
  have vr: "speed cr = - 94" "steerAngle cr = 1 / 2" "wheelbase cr = 70"
    by (simp_all add: cr_def r_def construct_def throttle_def steering_def Let_def)
  have t: "0 < tan (1 / 2 :: real)"
    using pi_ge_two by (intro tan_gt_zero) simp_all
  from physics_heading_formula[OF hf cf_def, of 0 0 0]
  have 1: "angle (car f) < angle (car (updateCar (1 / 50) 0 0 0 f))"
    using t by (simp add: vf)
  from physics_heading_formula[OF hr cr_def, of 0 0 0]
  have 2: "angle (car (updateCar (1 / 50) 0 0 0 r)) < angle (car r)"
    using t by (simp add: vr)
  show ?thesis using 1 2 unfolding f_def r_def by simp
qed

section \<open>Collision rollback and bounce\<close>


lemma sqrt_100: "sqrt 100 = 10"
  by (rule real_sqrt_unique) simp_all

lemma hypot_6_8 [simp]:
  "hypot 6 8 = 10" "hypot (-6) 8 = 10" "hypot 6 (-8) = 10" "hypot (-6) (-8) = 10"
  by (simp_all add: hypot_def sqrt_100)

lemma octagon_upright:
  "getChamferedRectPolygon x y 90 45 0 8 6 =
     [(x - 37, y - 45 / 2), (x + 37, y - 45 / 2), (x + 45, y - 33 / 2), (x + 45, y + 33 / 2),
      (x + 37, y + 45 / 2), (x - 37, y + 45 / 2), (x - 45, y + 33 / 2), (x - 45, y - 33 / 2)]"
  by (simp add: getChamferedRectPolygon_def rotateAbout_def Let_def)

lemma axes_octagon_upright:
  "getAxes [(x - 37, y - 45 / 2), (x + 37, y - 45 / 2), (x + 45, y - 33 / 2), (x + 45, y + 33 / 2),
      (x + 37, y + 45 / 2), (x - 37, y + 45 / 2), (x - 45, y + 33 / 2), (x - 45, y - 33 / 2)] =
   [(0, 1), (- 3 / 5, 4 / 5), (- 1, 0), (- 3 / 5, - 4 / 5),
    (0, - 1), (3 / 5, - 4 / 5), (1, 0), (3 / 5, 4 / 5)]"
  by (simp add: getAxes_rotate1 edgeAxis_def js_or_def)

lemma center_octagon_upright:
  "getPolygonCenter [(x - 37, y - 45 / 2), (x + 37, y - 45 / 2), (x + 45, y - 33 / 2), (x + 45, y + 33 / 2),
      (x + 37, y + 45 / 2), (x - 37, y + 45 / 2), (x - 45, y + 33 / 2), (x - 45, y - 33 / 2)] = (x, y)"
  by (simp add: getPolygonCenter_def)

lemma project_Cons:
  "projectPointsOnAxis (p # ps) ax = fold (projectStep ax) ps (Some (dot p ax), Some (dot p ax))"
  by (simp add: projectPointsOnAxis_def projectStep_None)

lemma same_place:
  "polygonCollisionMTV (getChamferedRectPolygon 255 420 90 45 0 8 6)
     (getChamferedRectPolygon 255 420 90 45 0 8 6) = \<lparr>collides = True, mtv = Some (0, 45)\<rparr>"
  unfolding polygonCollisionMTV_def octagon_upright Let_def axes_octagon_upright center_octagon_upright
  by (simp add: axisOverlap_def project_Cons projectStep_Some dot_def)


lemma bounce_expired: "\<not> now < collisionBounceUntilMs s \<Longrightarrow> bounce dt now s = s"
  by (simp add: bounce_def)

lemma wrapClamp_inside:
  assumes "- (width (car s) / 2) \<le> pos_x (car s)"
    "pos_x (car s) \<le> canvasWidth s + width (car s) / 2"
    "45 \<le> pos_y (car s)" "pos_y (car s) \<le> canvasHeight s - 45"
  shows "wrapClamp s = s"
  using assms by (simp add: wrapClamp_def Let_def)

lemma bounce_shape:
  "bounce dt now s =
     s\<lparr>car := (car s)\<lparr>pos_x := pos_x (car (bounce dt now s)),
                        pos_y := pos_y (car (bounce dt now s))\<rparr>\<rparr>"
proof -
  obtain x y where "bounce dt now s = s\<lparr>car := (car s)\<lparr>pos_x := x, pos_y := y\<rparr>\<rparr>"
    using bounce_car by blast
  then show ?thesis by simp
qed

lemma bounce_pos_y:
  assumes "now < collisionBounceUntilMs s"
  shows "pos_y (car (bounce dt now s)) =
           max 45 (min (canvasHeight s - 45)
             (pos_y (car s) + snd (collisionBounceDir s) *
                (collisionBounceSpeed s *
                 (max 0 (min 1 ((collisionBounceUntilMs s - now) / collisionBounceDurationMs s)) *
                  max 0 (min 1 ((collisionBounceUntilMs s - now) / collisionBounceDurationMs s))) *
                 dt)))"
  unfolding bounce_def Let_def using assms by (simp only: if_True) simp

lemma bounce_pos_x_still:
  assumes "now < collisionBounceUntilMs s" "- (width (car s) / 2) \<le> pos_x (car s)"
    "pos_x (car s) \<le> canvasWidth s + width (car s) / 2"
  shows "pos_x (car (bounce 0 now s)) = pos_x (car s)"
proof -
  have "pos_x (car (bounce 0 now s)) =
          (if (if pos_x (car s) < - (width (car s) / 2) then canvasWidth s + width (car s) / 2
               else pos_x (car s)) > canvasWidth s + width (car s) / 2
           then - (width (car s) / 2)
           else (if pos_x (car s) < - (width (car s) / 2) then canvasWidth s + width (car s) / 2
                 else pos_x (car s)))"
    unfolding bounce_def Let_def using assms(1) by (simp only: if_True) simp
  then show ?thesis using assms(2,3) by simp
qed

lemma bounce_still:
  assumes "- (width (car s) / 2) \<le> pos_x (car s)"
    "pos_x (car s) \<le> canvasWidth s + width (car s) / 2"
    "45 \<le> pos_y (car s)" "pos_y (car s) \<le> canvasHeight s - 45"
  shows "bounce 0 now s = s"
proof (cases "now < collisionBounceUntilMs s")
  case True
  have "pos_y (car (bounce 0 now s)) = pos_y (car s)"
    using assms(3,4) by (simp add: bounce_pos_y[OF True])
  moreover have "pos_x (car (bounce 0 now s)) = pos_x (car s)"
    using bounce_pos_x_still[OF True assms(1,2)] .
  ultimately show ?thesis using bounce_shape[of 0 now s] by simp
next
  case False
  then show ?thesis by (rule bounce_expired)
qed

lemma initial_800_600:
  "initial 800 600 = Some ((setInitialCarPosition (construct 800 600))\<lparr>
      parkingSpace := \<lparr>pos_x = 400, pos_y = 420, width = 200, height = 60\<rparr>,
      parkedCars :=
        [\<lparr>pos_x = 255, pos_y = 420, width = 90, height = 45, angle = 0,
          collisionInsetX = 8, collisionInsetY = 6\<rparr>,
         \<lparr>pos_x = 545, pos_y = 420, width = 90, height = 45, angle = 0,
          collisionInsetX = 8, collisionInsetY = 6\<rparr>]\<rparr>)"
  by (simp add: initial_def recomputeParkingLayout_def setInitialCarPosition_def construct_def)

lemma on_parked_car:
  assumes "s = (the (initial 800 600))\<lparr>car := (car (the (initial 800 600)))\<lparr>
                  pos_x := 255, pos_y := 420\<rparr>\<rparr>"
  shows "winResetAtMs s = None" "\<not> isDragging s"
    "heading dt (steering dt (throttle dt s)) = s"
    "advance dt s = s"
    "checkCollisions s =
       (True, s\<lparr>lastCollision := Some (HitCar (hd (parkedCars s))),
                collisionMTV := Some (0, 45)\<rparr>)"
    "pos_x (car s) = 255" "pos_y (car s) = 420" "width (car s) = 90"
    "canvasWidth s = 800" "canvasHeight s = 600" "collisionBounceDurationMs s = 140"
    "collisionBounceSpeed s = 220" "angle (car s) = 0" "steerAngle (car s) = 0"
proof -
  have c: "car s = \<lparr>pos_x = 255, pos_y = 420, width = 90, height = 45, angle = 0,
             collisionInsetX = 8, collisionInsetY = 6,
             speed = 0, maxSpeed = 360, acceleration = 100, friction = 300,
             steerAngle = 0, maxSteerAngle = pi / 6, wheelbase = 70,
             steerChangeRate = 8 / 10, collided = False, lastDirection = 1\<rparr>"
    by (simp add: assms initial_800_600 setInitialCarPosition_def construct_def)
  have k: "keys s = \<lparr>up = False, down = False, left = False, right = False\<rparr>"
    by (simp add: assms initial_800_600 setInitialCarPosition_def construct_def)
  have p: "parkedCars s =
        [\<lparr>pos_x = 255, pos_y = 420, width = 90, height = 45, angle = 0,
          collisionInsetX = 8, collisionInsetY = 6\<rparr>,
         \<lparr>pos_x = 545, pos_y = 420, width = 90, height = 45, angle = 0,
          collisionInsetX = 8, collisionInsetY = 6\<rparr>]"
    by (simp add: assms initial_800_600 setInitialCarPosition_def construct_def)
  show "winResetAtMs s = None" "\<not> isDragging s" "canvasWidth s = 800" "canvasHeight s = 600"
    "collisionBounceDurationMs s = 140" "collisionBounceSpeed s = 220"
    by (simp_all add: assms initial_800_600 setInitialCarPosition_def construct_def)
  show "pos_x (car s) = 255" "pos_y (car s) = 420" "width (car s) = 90" "angle (car s) = 0"
    "steerAngle (car s) = 0"
    by (simp_all add: c)
  have t: "throttle dt s = s" by (simp add: throttle_def c k)
  have st: "steering dt s = s" by (simp add: steering_def k)
  have h: "heading dt s = s" by (simp add: heading_def c)
  show "heading dt (steering dt (throttle dt s)) = s" by (simp add: t st h)
  have "s\<lparr>car := car s\<rparr> = s" by simp
  then show "advance dt s = s" unfolding advance_def Let_def by (simp add: c)
  have b: "bodyPolygon (car s) = getChamferedRectPolygon 255 420 90 45 0 8 6"
    by (simp add: bodyPolygon_def c js_or_def)
  have f: "firstParkedHit (getChamferedRectPolygon 255 420 90 45 0 8 6) (parkedCars s) =
             Some (hd (parkedCars s), Some (0, 45))"
    by (simp add: p bodyPolygon_def js_or_def same_place)
  show "checkCollisions s =
       (True, s\<lparr>lastCollision := Some (HitCar (hd (parkedCars s))),
                collisionMTV := Some (0, 45)\<rparr>)"
    unfolding checkCollisions_def Let_def b f by simp
qed


lemma resolveCollision_bounceDir:
  assumes "checkCollisions s = (True, s1)" "collisionMTV s1 = Some v"
  shows "collisionBounceDir (resolveCollision px py tf tb s) =
           (- fst v / js_or (hypot (fst v) (snd v)) 1, - snd v / js_or (hypot (fst v) (snd v)) 1)"
  using assms by (simp add: resolveCollision_cases Let_def)

text \<open>
  C2, as stated, fails. The car has been dragged onto the first parked car and released;
  the next tick (20 ms, the clock at 1000 ms throughout) reports the contact, and at the
  end of that tick the car is 4.4 px above where it was at the start.
\<close>

theorem collision_tick_moves_car:
  "fst (checkCollisions
         (advance (1 / 50) (heading (1 / 50) (steering (1 / 50) (throttle (1 / 50)
            ((the (initial 800 600))\<lparr>car := (car (the (initial 800 600)))\<lparr>
                 pos_x := 255, pos_y := 420\<rparr>\<rparr>)))))) \<and>
   pos_y (car ((the (initial 800 600))\<lparr>car := (car (the (initial 800 600)))\<lparr>
                 pos_x := 255, pos_y := 420\<rparr>\<rparr>)) = 420 \<and>
   pos_y (car (updateCar (1 / 50) 1000 1000 1000
                 ((the (initial 800 600))\<lparr>car := (car (the (initial 800 600)))\<lparr>
                    pos_x := 255, pos_y := 420\<rparr>\<rparr>))) = 2078 / 5 \<and>
   pos_y (car (updateCar (1 / 50) 1000 1000 1000
                 ((the (initial 800 600))\<lparr>car := (car (the (initial 800 600)))\<lparr>
                    pos_x := 255, pos_y := 420\<rparr>\<rparr>))) \<noteq>
   pos_y (car ((the (initial 800 600))\<lparr>car := (car (the (initial 800 600)))\<lparr>
                 pos_x := 255, pos_y := 420\<rparr>\<rparr>))"
proof -
  define s where "s = (the (initial 800 600))\<lparr>car := (car (the (initial 800 600)))\<lparr>
                  pos_x := 255, pos_y := 420\<rparr>\<rparr>"
  note f = on_parked_car[OF s_def]
  define m where "m = resolveCollision (pos_x (car s)) (pos_y (car s)) 1000 1000
                        (advance (1 / 50) (heading (1 / 50) (steering (1 / 50) (throttle (1 / 50) s))))"
  have hit: "fst (checkCollisions (advance (1 / 50)
               (heading (1 / 50) (steering (1 / 50) (throttle (1 / 50) s)))))"
    by (simp add: f(3,4,5))
  have m: "m = resolveCollision 255 420 1000 1000 s" by (simp add: m_def f)
  have pc: "updateCar (1 / 50) 1000 1000 1000 s = bounce (1 / 50) 1000 (wrapClamp m)"
    unfolding updateCar_physics[OF f(1,2)] m_def ..
  have o: "outsideUpdateCar m = outsideUpdateCar s" unfolding m by simp
  have cm: "carConstants (car m) = carConstants (car s)" unfolding m by simp
  have hs: "fst (checkCollisions s)" by (simp add: f(5))
  have pm: "pos_x (car m) = 255" "pos_y (car m) = 420"
    unfolding m using resolveCollision_hit(1,2)[OF hs] by simp_all
  have d: "collisionBounceDir m = (0, - 1)"
    unfolding m using resolveCollision_bounceDir[OF f(5), of "(0, 45)" 255 420 1000 1000]
    by (simp add: js_or_def)
  have u: "collisionBounceUntilMs m = 1140"
    unfolding m using resolveCollision_hit(5)[of s 255 420 1000 1000] by (simp add: f)
  have g: "canvasWidth m = 800" "canvasHeight m = 600" "collisionBounceDurationMs m = 140"
    "collisionBounceSpeed m = 220" "width (car m) = 90"
    using outside_fields(11,12,13,14)[OF o] carConstants_fields(1)[OF cm] by (simp_all add: f)
  have w: "wrapClamp m = m" by (rule wrapClamp_inside) (simp_all add: pm g)
  have "pos_y (car (updateCar (1 / 50) 1000 1000 1000 s)) =
          pos_y (car (bounce (1 / 50) 1000 m))" using pc w by simp
  also have "\<dots> = 2078 / 5"
    by (subst bounce_pos_y) (simp_all add: u d g pm)
  finally show ?thesis using hit f(7) unfolding s_def by simp
qed

text \<open>
  C2, as the code has it. In a tick that runs the physics and in which \<open>checkCollisions\<close>
  reports a contact, let \<open>h\<close> be the state after the heading block and \<open>m\<close> the state
  after the collision branch: in \<open>m\<close> the position is the one at the start of the tick and
  the speed is 0. The tick ends with the boundary block and the bounce impulse applied to
  \<open>m\<close>; at its end the speed is 0, the \<open>collided\<close> flag is set, and heading and steer angle
  are those of \<open>h\<close>. The position at the end is the position at the start when that was
  within the bounds and the impulse moves nothing (\<open>dt = 0\<close>, or the impulse started by
  this contact has expired at the clock reading).
\<close>

theorem collision_rollback:
  assumes "winResetAtMs s = None" and "\<not> isDragging s"
    and "h = heading dt (steering dt (throttle dt s))"
    and "fst (checkCollisions (advance dt h))"
    and "m = resolveCollision (pos_x (car s)) (pos_y (car s)) tFlash tBounce (advance dt h)"
    and "e = updateCar dt tFlash tBounce tImpulse s"
  shows "pos_x (car m) = pos_x (car s) \<and> pos_y (car m) = pos_y (car s) \<and> speed (car m) = 0 \<and>
         e = bounce dt tImpulse (wrapClamp m) \<and>
         speed (car e) = 0 \<and> collided (car e) \<and>
         angle (car e) = angle (car h) \<and> steerAngle (car e) = steerAngle (car h) \<and>
         (- (width (car s) / 2) \<le> pos_x (car s) \<and>
          pos_x (car s) \<le> canvasWidth s + width (car s) / 2 \<and>
          45 \<le> pos_y (car s) \<and> pos_y (car s) \<le> canvasHeight s - 45 \<and>
          (dt = 0 \<or> tBounce + collisionBounceDurationMs s \<le> tImpulse) \<longrightarrow>
            pos_x (car e) = pos_x (car s) \<and> pos_y (car e) = pos_y (car s))"
proof -
  note hit = resolveCollision_hit[OF assms(4), of "pos_x (car s)" "pos_y (car s)" tFlash tBounce,
      folded assms(5)]
  have e: "e = bounce dt tImpulse (wrapClamp m)"
    unfolding assms(6) updateCar_physics[OF assms(1,2)] assms(5) assms(3) ..
  have k: "angle (car m) = angle (car h)" "steerAngle (car m) = steerAngle (car h)"
    "carConstants (car m) = carConstants (car s)"
    unfolding assms(5) assms(3) by simp_all
  have o: "outsideUpdateCar m = outsideUpdateCar s" unfolding assms(5) assms(3) by simp
  have u: "collisionBounceUntilMs m = tBounce + collisionBounceDurationMs s"
    using hit(5) outside_fields(13)[of "advance dt h" s] unfolding assms(3) by simp
  have "pos_x (car e) = pos_x (car s) \<and> pos_y (car e) = pos_y (car s)"
    if b: "- (width (car s) / 2) \<le> pos_x (car s)"
      "pos_x (car s) \<le> canvasWidth s + width (car s) / 2"
      "45 \<le> pos_y (car s)" "pos_y (car s) \<le> canvasHeight s - 45"
      and i: "dt = 0 \<or> tBounce + collisionBounceDurationMs s \<le> tImpulse"
  proof -
    have bm: "- (width (car m) / 2) \<le> pos_x (car m)"
      "pos_x (car m) \<le> canvasWidth m + width (car m) / 2"
      "45 \<le> pos_y (car m)" "pos_y (car m) \<le> canvasHeight m - 45"
      using b hit(1,2) carConstants_fields(1)[OF k(3)] outside_fields(11,12)[OF o] by simp_all
    have w: "wrapClamp m = m" using bm by (rule wrapClamp_inside)
    from i have "bounce dt tImpulse m = m"
    proof
      assume "dt = 0"
      then show ?thesis using bounce_still[OF bm] by simp
    next
      assume "tBounce + collisionBounceDurationMs s \<le> tImpulse"
      then show ?thesis using u by (intro bounce_expired) simp
    qed
    then show ?thesis using e w hit(1,2) by simp
  qed
  then show ?thesis using hit(1-4) e k(1,2) by simp
qed

theorem collision_rollback_witness:
  "(let s = (the (initial 800 600))\<lparr>car := (car (the (initial 800 600)))\<lparr>
                 pos_x := 255, pos_y := 420\<rparr>\<rparr>;
        h = heading (1 / 50) (steering (1 / 50) (throttle (1 / 50) s));
        e = updateCar (1 / 50) 1000 1000 2000 s
    in winResetAtMs s = None \<and> \<not> isDragging s \<and> fst (checkCollisions (advance (1 / 50) h)) \<and>
       pos_x (car s) = 255 \<and> pos_y (car s) = 420 \<and>
       1000 + collisionBounceDurationMs s \<le> 2000 \<and>
       pos_x (car e) = 255 \<and> pos_y (car e) = 420 \<and> speed (car e) = 0 \<and> collided (car e) \<and>
       angle (car e) = 0 \<and> steerAngle (car e) = 0)"
proof -
  define s where "s = (the (initial 800 600))\<lparr>car := (car (the (initial 800 600)))\<lparr>
                  pos_x := 255, pos_y := 420\<rparr>\<rparr>"
  define h where "h = heading (1 / 50) (steering (1 / 50) (throttle (1 / 50) s))"
  define e where "e = updateCar (1 / 50) 1000 1000 2000 s"
  note f = on_parked_car[OF s_def]
  have hs: "h = s" by (simp add: h_def f(3))
  have hit: "fst (checkCollisions (advance (1 / 50) h))" by (simp add: hs f(4,5))
  note t = collision_rollback[OF f(1,2) h_def hit refl e_def]
  from t have t1: "speed (car e) = 0 \<and> collided (car e) \<and>
       angle (car e) = angle (car h) \<and> steerAngle (car e) = steerAngle (car h)"
    by blast
  from t have t2: "- (width (car s) / 2) \<le> pos_x (car s) \<and>
          pos_x (car s) \<le> canvasWidth s + width (car s) / 2 \<and>
          45 \<le> pos_y (car s) \<and> pos_y (car s) \<le> canvasHeight s - 45 \<and>
          (1 / 50 = (0::real) \<or> 1000 + collisionBounceDurationMs s \<le> 2000) \<longrightarrow>
            pos_x (car e) = pos_x (car s) \<and> pos_y (car e) = pos_y (car s)"
    by blast
  have "pos_x (car e) = 255 \<and> pos_y (car e) = 420 \<and> speed (car e) = 0 \<and> collided (car e) \<and>
       angle (car e) = 0 \<and> steerAngle (car e) = 0"
    using t1 t2 by (simp add: f hs)
  then show ?thesis
    unfolding s_def[symmetric] h_def[symmetric] e_def[symmetric] Let_def
    using f(1,2,6,7,11) hit by simp
qed

section \<open>Canvas bounds\<close>


lemma wrapClamp_pos:
  "pos_x (car (wrapClamp s)) =
     (if pos_x (car s) < - (width (car s) / 2) then canvasWidth s + width (car s) / 2
      else if canvasWidth s + width (car s) / 2 < pos_x (car s) then - (width (car s) / 2)
      else pos_x (car s))"
  "pos_y (car (wrapClamp s)) = max 45 (min (canvasHeight s - 45) (pos_y (car s)))"
  unfolding wrapClamp_def Let_def by simp_all

lemma bounce_pos_x:
  assumes "now < collisionBounceUntilMs s"
  shows "\<exists>x1. pos_x (car (bounce dt now s)) =
           (if (if x1 < - (width (car s) / 2) then canvasWidth s + width (car s) / 2 else x1)
                 > canvasWidth s + width (car s) / 2
            then - (width (car s) / 2)
            else (if x1 < - (width (car s) / 2) then canvasWidth s + width (car s) / 2 else x1))"
  unfolding bounce_def Let_def using assms by (simp only: if_True) auto

lemma clamp_idem:
  "max 45 (min (hgt - 45) (max 45 (min (hgt - 45) (z::real)))) = max 45 (min (hgt - 45) z)"
  by (simp add: max_def min_def)

lemma clamp_range:
  "90 \<le> hgt \<Longrightarrow> 45 \<le> max 45 (min (hgt - 45) (z::real)) \<and> max 45 (min (hgt - 45) z) \<le> hgt - 45"
  by (simp add: max_def min_def)

lemma tick_end_y:
  "\<exists>z. pos_y (car (bounce dt now (wrapClamp s))) = max 45 (min (canvasHeight s - 45) z)"
proof (cases "now < collisionBounceUntilMs (wrapClamp s)")
  case True
  have h: "canvasHeight (wrapClamp s) = canvasHeight s"
    using outside_fields(12)[OF outside_wrapClamp] .
  show ?thesis unfolding bounce_pos_y[OF True, of dt] h by (rule exI) (rule refl)
next
  case False
  have "pos_y (car (bounce dt now (wrapClamp s))) =
          max 45 (min (canvasHeight s - 45) (pos_y (car s)))"
    using False by (simp add: bounce_expired wrapClamp_pos)
  then show ?thesis by (rule exI)
qed

lemma tick_end_x:
  assumes "0 \<le> canvasWidth s + width (car s)"
  shows "- (width (car s) / 2) \<le> pos_x (car (bounce dt now (wrapClamp s))) \<and>
         pos_x (car (bounce dt now (wrapClamp s))) \<le> canvasWidth s + width (car s) / 2"
proof (cases "now < collisionBounceUntilMs (wrapClamp s)")
  case True
  have w: "canvasWidth (wrapClamp s) = canvasWidth s"
    using outside_fields(11)[OF outside_wrapClamp] .
  have c: "width (car (wrapClamp s)) = width (car s)"
    using carConstants_fields(1)[OF wrapClamp_kept(1)] .
  from bounce_pos_x[OF True, of dt] obtain x1 where
    "pos_x (car (bounce dt now (wrapClamp s))) =
           (if (if x1 < - (width (car s) / 2) then canvasWidth s + width (car s) / 2 else x1)
                 > canvasWidth s + width (car s) / 2
            then - (width (car s) / 2)
            else (if x1 < - (width (car s) / 2) then canvasWidth s + width (car s) / 2 else x1))"
    unfolding w c by blast
  then show ?thesis using assms by (simp split: if_splits)
next
  case False
  then have "pos_x (car (bounce dt now (wrapClamp s))) = pos_x (car (wrapClamp s))"
    by (simp add: bounce_expired)
  then show ?thesis using assms unfolding wrapClamp_pos by (simp split: if_splits)
qed


lemma resolveCollision_until_miss:
  assumes "\<not> fst (checkCollisions s)"
  shows "collisionBounceUntilMs (resolveCollision px py tf tb s) = collisionBounceUntilMs s"
proof -
  have "snd (checkCollisions s) = s"
  proof (cases "firstParkedHit (bodyPolygon (car s)) (parkedCars s)")
    case None
    then show ?thesis using assms
      by (cases "collides (polygonCollisionMTV (bodyPolygon (car s))
                   (getRectangleCorners (centerX s) (centerY s + curbOffsetY s + curbHeight s / 2)
                      (curbWidth s) (curbHeight s) 0))")
         (simp_all add: checkCollisions_def Let_def)
  next
    case (Some hit)
    then show ?thesis using assms
      by (cases hit) (simp add: checkCollisions_def Let_def)
  qed
  then show ?thesis using assms by (simp add: resolveCollision_cases Let_def)
qed

lemma early_blocks_bounceUntil [simp]:
  "collisionBounceUntilMs (throttle dt s) = collisionBounceUntilMs s"
  "collisionBounceUntilMs (steering dt s) = collisionBounceUntilMs s"
  "collisionBounceUntilMs (heading dt s) = collisionBounceUntilMs s"
  "collisionBounceUntilMs (advance dt s) = collisionBounceUntilMs s"
  by (simp_all add: throttle_def steering_def heading_def advance_def Let_def)

lemma leaving_left:
  assumes "s = (the (initial 800 600))\<lparr>car := (car (the (initial 800 600)))\<lparr>
                  pos_x := - 44, speed := - 100\<rparr>\<rparr>"
  shows "winResetAtMs s = None" "\<not> isDragging s"
    "pos_x (car (advance (1 / 50) (heading (1 / 50) (steering (1 / 50) (throttle (1 / 50) s))))) = - 1147 / 25"
    "pos_y (car (advance (1 / 50) (heading (1 / 50) (steering (1 / 50) (throttle (1 / 50) s))))) = 355"
    "\<not> fst (checkCollisions (advance (1 / 50) (heading (1 / 50) (steering (1 / 50) (throttle (1 / 50) s)))))"
    "width (car s) = 90" "canvasWidth s = 800" "canvasHeight s = 600"
    "collisionBounceUntilMs s = 0" "pos_x (car s) = - 44" "pos_y (car s) = 355"
proof -
  let ?a = "advance (1 / 50) (heading (1 / 50) (steering (1 / 50) (throttle (1 / 50) s)))"
  have c: "car s = \<lparr>pos_x = - 44, pos_y = 355, width = 90, height = 45, angle = 0,
             collisionInsetX = 8, collisionInsetY = 6,
             speed = - 100, maxSpeed = 360, acceleration = 100, friction = 300,
             steerAngle = 0, maxSteerAngle = pi / 6, wheelbase = 70,
             steerChangeRate = 8 / 10, collided = False, lastDirection = 1\<rparr>"
    by (simp add: assms initial_800_600 setInitialCarPosition_def construct_def)
  have k: "keys s = \<lparr>up = False, down = False, left = False, right = False\<rparr>"
    by (simp add: assms initial_800_600 setInitialCarPosition_def construct_def)
  show g: "winResetAtMs s = None" "\<not> isDragging s" "canvasWidth s = 800" "canvasHeight s = 600"
    "collisionBounceUntilMs s = 0"
    by (simp_all add: assms initial_800_600 setInitialCarPosition_def construct_def)
  show "width (car s) = 90" "pos_x (car s) = - 44" "pos_y (car s) = 355" by (simp_all add: c)
  have ca: "car ?a = (car s)\<lparr>speed := - 94, pos_x := - 1147 / 25\<rparr>"
    by (simp add: throttle_def steering_def heading_def advance_def c k)
  show "pos_x (car ?a) = - 1147 / 25" "pos_y (car ?a) = 355" by (simp_all add: ca c)
  have o: "outsideUpdateCar ?a = outsideUpdateCar s" by simp
  have p: "parkedCars ?a =
        [\<lparr>pos_x = 255, pos_y = 420, width = 90, height = 45, angle = 0,
          collisionInsetX = 8, collisionInsetY = 6\<rparr>,
         \<lparr>pos_x = 545, pos_y = 420, width = 90, height = 45, angle = 0,
          collisionInsetX = 8, collisionInsetY = 6\<rparr>]"
    unfolding outside_fields(4)[OF o]
    by (simp add: assms initial_800_600 setInitialCarPosition_def construct_def)
  have q: "centerX ?a = 400" "centerY ?a = 300" "curbOffsetY ?a = 160" "curbHeight ?a = 30"
    "curbWidth ?a = 800"
    unfolding outside_fields[OF o]
    by (simp_all add: assms initial_800_600 setInitialCarPosition_def construct_def)
  have b: "bodyPolygon (car ?a) = getChamferedRectPolygon (- (1147 / 25)) 355 90 45 0 8 6"
    by (simp add: bodyPolygon_def ca c js_or_def)
  have n1: "\<not> collides (polygonCollisionMTV (getChamferedRectPolygon (- (1147 / 25)) 355 90 45 0 8 6)
              (getChamferedRectPolygon x 420 90 45 0 8 6))" for x
    unfolding polygonCollisionMTV_def octagon_upright Let_def axes_octagon_upright
      center_octagon_upright
    by (simp add: axisOverlap_def project_Cons projectStep_Some dot_def)
  have f: "firstParkedHit (getChamferedRectPolygon (- (1147 / 25)) 355 90 45 0 8 6) (parkedCars ?a) = None"
    by (simp add: p bodyPolygon_def js_or_def n1 Let_def)
  have n2: "\<not> collides (polygonCollisionMTV (getChamferedRectPolygon (- (1147 / 25)) 355 90 45 0 8 6)
              (getRectangleCorners 400 475 800 30 0))"
    unfolding polygonCollisionMTV_def octagon_upright Let_def axes_octagon_upright
    by (simp add: axisOverlap_def project_Cons projectStep_Some dot_def getRectangleCorners_def
        rotateAbout_def)
  show "\<not> fst (checkCollisions ?a)"
    unfolding checkCollisions_def Let_def b f q using n2 by simp
qed

lemma curb_800_600:
  "getRectangleCorners 400 475 800 30 0 = [(0, 460), (800, 460), (800, 490), (0, 490)]"
  by (simp add: getRectangleCorners_def rotateAbout_def Let_def)

lemma axes_curb_800_600:
  "getAxes [(0, 460), (800, 460), (800, 490), (0, 490)] = [(0, 1), (- 1, 0), (0, - 1), (1, 0)]"
  by (simp add: getAxes_rotate1 edgeAxis_def js_or_def)

lemma center_curb_800_600:
  "getPolygonCenter [(0, 460), (800, 460), (800, 490), (0, 490)] = (400, 475)"
  by (simp add: getPolygonCenter_def)

lemma parked_lane_clear:
  "\<not> collides (polygonCollisionMTV (getChamferedRectPolygon x 475 90 45 0 8 6)
        (getChamferedRectPolygon x' 420 90 45 0 8 6))"
  unfolding polygonCollisionMTV_def octagon_upright Let_def axes_octagon_upright
    center_octagon_upright
  by (simp add: axisOverlap_def project_Cons projectStep_Some dot_def)

lemma curb_end_hit:
  "polygonCollisionMTV (getChamferedRectPolygon (21124 / 25) 475 90 45 0 8 6)
     (getRectangleCorners 400 475 800 30 0) = \<lparr>collides = True, mtv = Some (- (1 / 25), 0)\<rparr>"
  unfolding polygonCollisionMTV_def octagon_upright Let_def axes_octagon_upright
    center_octagon_upright curb_800_600 axes_curb_800_600 center_curb_800_600
  by (simp add: axisOverlap_def project_Cons projectStep_Some dot_def)

lemma curb_start_clear:
  "\<not> collides (polygonCollisionMTV (getChamferedRectPolygon (- (1126 / 25)) 475 90 45 0 8 6)
        (getRectangleCorners 400 475 800 30 0))"
  unfolding polygonCollisionMTV_def octagon_upright Let_def axes_octagon_upright
    center_octagon_upright curb_800_600 axes_curb_800_600 center_curb_800_600
  by (simp add: axisOverlap_def project_Cons projectStep_Some dot_def)

lemma bounce_pos_x_active:
  assumes "now < collisionBounceUntilMs s"
  shows "pos_x (car (bounce dt now s)) =
           (if pos_x (car s) + fst (collisionBounceDir s) *
                (collisionBounceSpeed s *
                 (max 0 (min 1 ((collisionBounceUntilMs s - now) / collisionBounceDurationMs s)) *
                  max 0 (min 1 ((collisionBounceUntilMs s - now) / collisionBounceDurationMs s))) *
                 dt) < - (width (car s) / 2)
            then canvasWidth s + width (car s) / 2
            else if canvasWidth s + width (car s) / 2 <
                pos_x (car s) + fst (collisionBounceDir s) *
                (collisionBounceSpeed s *
                 (max 0 (min 1 ((collisionBounceUntilMs s - now) / collisionBounceDurationMs s)) *
                  max 0 (min 1 ((collisionBounceUntilMs s - now) / collisionBounceDurationMs s))) *
                 dt)
            then - (width (car s) / 2)
            else pos_x (car s) + fst (collisionBounceDir s) *
                (collisionBounceSpeed s *
                 (max 0 (min 1 ((collisionBounceUntilMs s - now) / collisionBounceDurationMs s)) *
                  max 0 (min 1 ((collisionBounceUntilMs s - now) / collisionBounceDurationMs s))) *
                 dt))"
  unfolding bounce_def Let_def using assms by (simp only: if_True) simp

lemma reverse_straight:
  assumes "down (keys s)" "\<not> up (keys s)" "\<not> left (keys s)" "\<not> right (keys s)"
    "steerAngle (car s) = 0" "angle (car s) = 0"
    and "a = advance dt (heading dt (steering dt (throttle dt s)))"
  shows "pos_x (car a) =
           pos_x (car s) + max (speed (car s) - acceleration (car s) * dt) (- maxSpeed (car s)) * dt"
    "pos_y (car a) = pos_y (car s)" "angle (car a) = 0" "steerAngle (car a) = 0"
proof -
  have t: "speed (car (throttle dt s)) =
             max (speed (car s) - acceleration (car s) * dt) (- maxSpeed (car s))"
    using assms(1,2) by (simp add: throttle_def Let_def)
  have st: "steering dt (throttle dt s) = throttle dt s"
    using assms(3,4) outside_fields(10)[OF outside_throttle[of dt s]]
    by (simp add: steering_def Let_def)
  have h: "heading dt (throttle dt s) = throttle dt s"
    using assms(5) by (simp add: heading_def Let_def)
  have a: "a = advance dt (throttle dt s)" unfolding assms(7) st h ..
  show "pos_x (car a) =
           pos_x (car s) + max (speed (car s) - acceleration (car s) * dt) (- maxSpeed (car s)) * dt"
    unfolding a advance_def Let_def using t assms(6) by simp
  show "pos_y (car a) = pos_y (car s)"
    unfolding a advance_def Let_def using assms(6) by simp
  show "angle (car a) = 0" unfolding a using assms(6) by simp
  show "steerAngle (car a) = 0" unfolding a using assms(5) by simp
qed

lemma checkCollisions_miss:
  assumes "\<not> fst (checkCollisions s)"
  shows "snd (checkCollisions s) = s"
proof (cases "firstParkedHit (bodyPolygon (car s)) (parkedCars s)")
  case None
  then show ?thesis using assms
    by (cases "collides (polygonCollisionMTV (bodyPolygon (car s))
                 (getRectangleCorners (centerX s) (centerY s + curbOffsetY s + curbHeight s / 2)
                    (curbWidth s) (curbHeight s) 0))")
       (simp_all add: checkCollisions_def Let_def)
next
  case (Some hit)
  then show ?thesis using assms
    by (cases hit) (simp add: checkCollisions_def Let_def)
qed

lemma resolveCollision_dir_miss:
  assumes "\<not> fst (checkCollisions s)"
  shows "collisionBounceDir (resolveCollision px py tf tb s) = collisionBounceDir s"
  using assms checkCollisions_miss[OF assms] by (simp add: resolveCollision_cases Let_def)

lemma impulse_kept [simp]:
  "collisionBounceDir (throttle dt s) = collisionBounceDir s"
  "collisionBounceDir (steering dt s) = collisionBounceDir s"
  "collisionBounceDir (heading dt s) = collisionBounceDir s"
  "collisionBounceDir (advance dt s) = collisionBounceDir s"
  "collisionBounceDir (wrapClamp s) = collisionBounceDir s"
  "collisionBounceDir (bounce dt now s) = collisionBounceDir s"
  "collisionBounceUntilMs (bounce dt now s) = collisionBounceUntilMs s"
proof -
  show "collisionBounceDir (throttle dt s) = collisionBounceDir s"
    by (simp add: throttle_def Let_def)
  show "collisionBounceDir (steering dt s) = collisionBounceDir s"
    by (simp add: steering_def Let_def)
  show "collisionBounceDir (heading dt s) = collisionBounceDir s"
    by (simp add: heading_def Let_def)
  show "collisionBounceDir (advance dt s) = collisionBounceDir s"
    by (simp add: advance_def Let_def)
  show "collisionBounceDir (wrapClamp s) = collisionBounceDir s"
    using wrapClamp_car[of s] by auto
  show "collisionBounceDir (bounce dt now s) = collisionBounceDir s"
    using bounce_car[of dt now s] by auto
  show "collisionBounceUntilMs (bounce dt now s) = collisionBounceUntilMs s"
    using bounce_car[of dt now s] by auto
qed

lemma at_curb_end:
  assumes "s = (the (initial 800 600))\<lparr>
                  car := (car (the (initial 800 600)))\<lparr>pos_x := 845, pos_y := 475\<rparr>,
                  keys := (keys (the (initial 800 600)))\<lparr>down := True\<rparr>\<rparr>"
  shows "winResetAtMs s = None" "\<not> isDragging s"
    "car s = \<lparr>pos_x = 845, pos_y = 475, width = 90, height = 45, angle = 0,
             collisionInsetX = 8, collisionInsetY = 6,
             speed = 0, maxSpeed = 360, acceleration = 100, friction = 300,
             steerAngle = 0, maxSteerAngle = pi / 6, wheelbase = 70,
             steerChangeRate = 8 / 10, collided = False, lastDirection = 1\<rparr>"
    "keys s = \<lparr>up = False, down = True, left = False, right = False\<rparr>"
    "parkedCars s =
        [\<lparr>pos_x = 255, pos_y = 420, width = 90, height = 45, angle = 0,
          collisionInsetX = 8, collisionInsetY = 6\<rparr>,
         \<lparr>pos_x = 545, pos_y = 420, width = 90, height = 45, angle = 0,
          collisionInsetX = 8, collisionInsetY = 6\<rparr>]"
    "centerX s = 400" "centerY s = 300" "curbOffsetY s = 160" "curbHeight s = 30"
    "curbWidth s = 800" "canvasWidth s = 800" "canvasHeight s = 600"
    "collisionBounceDurationMs s = 140" "collisionBounceSpeed s = 220"
    "collisionBounceUntilMs s = 0"
  by (simp_all add: assms initial_800_600 setInitialCarPosition_def construct_def)

lemma level_one_check:
  assumes "outsideUpdateCar a = outsideUpdateCar s"
    and "parkedCars s =
        [\<lparr>pos_x = 255, pos_y = 420, width = 90, height = 45, angle = 0,
          collisionInsetX = 8, collisionInsetY = 6\<rparr>,
         \<lparr>pos_x = 545, pos_y = 420, width = 90, height = 45, angle = 0,
          collisionInsetX = 8, collisionInsetY = 6\<rparr>]"
    and "centerX s = 400" "centerY s = 300" "curbOffsetY s = 160" "curbHeight s = 30"
      "curbWidth s = 800"
    and "bodyPolygon (car a) = getChamferedRectPolygon x 475 90 45 0 8 6"
  shows "checkCollisions a =
     (let result = polygonCollisionMTV (getChamferedRectPolygon x 475 90 45 0 8 6)
                     (getRectangleCorners 400 475 800 30 0)
      in if collides result
         then (True, a\<lparr>lastCollision := Some HitCurb, collisionMTV := mtv result\<rparr>)
         else (False, a))"
proof -
  have f: "firstParkedHit (getChamferedRectPolygon x 475 90 45 0 8 6) (parkedCars a) = None"
    unfolding outside_fields(4)[OF assms(1)] assms(2)
    by (simp add: bodyPolygon_def js_or_def parked_lane_clear Let_def)
  note q = outside_fields(17,18,19,20,21)[OF assms(1)]
  have c: "centerX a = 400" "centerY a = 300" "curbOffsetY a = 160" "curbHeight a = 30"
    "curbWidth a = 800"
    unfolding q assms(3-7) by simp_all
  have y: "(300::real) + 160 + 30 / 2 = 475" by simp
  show ?thesis unfolding checkCollisions_def Let_def assms(8) f c y by simp
qed

lemma curb_end_first_tick:
  assumes "s = (the (initial 800 600))\<lparr>
                  car := (car (the (initial 800 600)))\<lparr>pos_x := 845, pos_y := 475\<rparr>,
                  keys := (keys (the (initial 800 600)))\<lparr>down := True\<rparr>\<rparr>"
    and "a = advance (1 / 50) (heading (1 / 50) (steering (1 / 50) (throttle (1 / 50) s)))"
    and "m = resolveCollision (pos_x (car s)) (pos_y (car s)) 1000 1000 a"
    and "e = updateCar (1 / 50) 1000 1000 1000 s"
  shows "pos_x (car a) = 21124 / 25" "pos_y (car a) = 475"
    "fst (checkCollisions a)"
    "pos_x (car m) = 845" "pos_y (car m) = 475" "speed (car m) = 0"
    "collisionBounceUntilMs m = 1140" "collisionBounceDir m = (1, 0)"
    "wrapClamp m = m"
    "e = bounce (1 / 50) 1000 m"
    "pos_x (car e) = - 45" "pos_y (car e) = 475"
    "speed (car e) = 0" "angle (car e) = 0" "steerAngle (car e) = 0"
    "collisionBounceUntilMs e = 1140" "collisionBounceDir e = (1, 0)"
proof -
  note f = at_curb_end[OF assms(1)]
  have k: "down (keys s)" "\<not> up (keys s)" "\<not> left (keys s)" "\<not> right (keys s)"
    "steerAngle (car s) = 0" "angle (car s) = 0"
    by (simp_all add: f(3,4))
  note r = reverse_straight[OF k assms(2)]
  show pa: "pos_x (car a) = 21124 / 25" "pos_y (car a) = 475"
    unfolding r by (simp_all add: f(3))
  have o: "outsideUpdateCar a = outsideUpdateCar s" unfolding assms(2) by simp
  have cc: "carConstants (car a) = carConstants (car s)" unfolding assms(2) by simp
  have b: "bodyPolygon (car a) = getChamferedRectPolygon (21124 / 25) 475 90 45 0 8 6"
    unfolding bodyPolygon_def pa r(3) carConstants_fields(1-4)[OF cc]
    by (simp add: f(3) js_or_def)
  have ch: "checkCollisions a =
              (True, a\<lparr>lastCollision := Some HitCurb, collisionMTV := Some (- (1 / 25), 0)\<rparr>)"
    unfolding level_one_check[OF o f(5-10) b] curb_end_hit Let_def by simp
  show hit: "fst (checkCollisions a)" unfolding ch by simp
  show pm: "pos_x (car m) = 845" "pos_y (car m) = 475" "speed (car m) = 0"
    unfolding assms(3) resolveCollision_hit(1,2,3)[OF hit] by (simp_all add: f(3))
  have om: "outsideUpdateCar m = outsideUpdateCar s" unfolding assms(3) assms(2) by simp
  have cm: "carConstants (car m) = carConstants (car s)" unfolding assms(3) assms(2) by simp
  show u: "collisionBounceUntilMs m = 1140"
    unfolding assms(3) resolveCollision_hit(5)[OF hit] outside_fields(13)[OF o] f by simp
  show d: "collisionBounceDir m = (1, 0)"
    unfolding assms(3)
    using resolveCollision_bounceDir[OF ch, of "(- (1 / 25), 0)"
             "pos_x (car s)" "pos_y (car s)" 1000 1000]
    by (simp add: js_or_def)
  have g: "canvasWidth m = 800" "canvasHeight m = 600" "collisionBounceDurationMs m = 140"
    "collisionBounceSpeed m = 220" "width (car m) = 90"
    unfolding outside_fields(11,12,13,14)[OF om] carConstants_fields(1)[OF cm] f
    by simp_all
  show w: "wrapClamp m = m" by (rule wrapClamp_inside) (simp_all add: pm g)
  show e: "e = bounce (1 / 50) 1000 m"
    unfolding assms(4) updateCar_physics[OF f(1,2)] assms(3) assms(2) w[unfolded assms(3) assms(2)] ..
  have act: "1000 < collisionBounceUntilMs m" unfolding u by simp
  show "pos_x (car e) = - 45"
    unfolding e bounce_pos_x_active[OF act] pm g u d by simp
  show "pos_y (car e) = 475"
    unfolding e bounce_pos_y[OF act] pm g u d by simp
  show "speed (car e) = 0" unfolding e using pm(3) by simp
  show "angle (car e) = 0" "steerAngle (car e) = 0"
    unfolding e assms(3) using r(3,4) by simp_all
  show "collisionBounceUntilMs e = 1140" "collisionBounceDir e = (1, 0)"
    unfolding e using u d by simp_all
qed

lemma curb_end_second_tick:
  assumes "s = (the (initial 800 600))\<lparr>
                  car := (car (the (initial 800 600)))\<lparr>pos_x := 845, pos_y := 475\<rparr>,
                  keys := (keys (the (initial 800 600)))\<lparr>down := True\<rparr>\<rparr>"
    and "e1 = updateCar (1 / 50) 1000 1000 1000 s"
    and "a = advance (1 / 50) (heading (1 / 50) (steering (1 / 50) (throttle (1 / 50) e1)))"
    and "m = resolveCollision (pos_x (car e1)) (pos_y (car e1)) 1020 1020 a"
    and "e = updateCar (1 / 50) 1020 1020 1020 e1"
  shows "winResetAtMs e1 = None" "\<not> isDragging e1"
    "width (car e1) = 90" "canvasWidth e1 = 800" "canvasHeight e1 = 600"
    "collisionBounceSpeed e1 = 220" "collisionBounceDurationMs e1 = 140"
    "pos_x (car e1) = - 45" "pos_y (car e1) = 475"
    "pos_x (car a) = - (1126 / 25)" "pos_y (car a) = 475"
    "\<not> fst (checkCollisions a)"
    "pos_x (car m) = - (1126 / 25)" "pos_y (car m) = 475"
    "collisionBounceUntilMs m = 1140" "collisionBounceDir m = (1, 0)"
    "pos_x (car (wrapClamp m)) = 845" "pos_y (car (wrapClamp m)) = 475"
    "e = bounce (1 / 50) 1020 (wrapClamp m)"
    "pos_x (car e) = - 45" "pos_y (car e) = 475"
proof -
  note f = at_curb_end[OF assms(1)]
  define a1 where "a1 = advance (1 / 50) (heading (1 / 50) (steering (1 / 50) (throttle (1 / 50) s)))"
  define m1 where "m1 = resolveCollision (pos_x (car s)) (pos_y (car s)) 1000 1000 a1"
  note t = curb_end_first_tick[OF assms(1) a1_def m1_def assms(2)]
  have o1: "outsideUpdateCar e1 = outsideUpdateCar s" unfolding assms(2) by simp
  have c1: "carConstants (car e1) = carConstants (car s)"
    unfolding t(10) m1_def a1_def by simp
  note g1 = outside_fields[OF o1]
  note k1 = carConstants_fields[OF c1]
  show h1: "winResetAtMs e1 = None" "\<not> isDragging e1"
    unfolding g1 by (simp_all add: f)
  show d1: "width (car e1) = 90" "canvasWidth e1 = 800" "canvasHeight e1 = 600"
    "collisionBounceSpeed e1 = 220" "collisionBounceDurationMs e1 = 140"
    unfolding g1 k1 by (simp_all add: f)
  show p1: "pos_x (car e1) = - 45" "pos_y (car e1) = 475" by (rule t(11), rule t(12))
  note v1 = t(13)
  note an1 = t(14,15)
  note u1 = t(16,17)
  have k: "down (keys e1)" "\<not> up (keys e1)" "\<not> left (keys e1)" "\<not> right (keys e1)"
    unfolding g1 by (simp_all add: f(4))
  note r = reverse_straight[OF k an1(2,1) assms(3)]
  show pa: "pos_x (car a) = - (1126 / 25)" "pos_y (car a) = 475"
    unfolding r p1 v1 k1 by (simp_all add: f(3))
  have o: "outsideUpdateCar a = outsideUpdateCar s" unfolding assms(3) using o1 by simp
  have cc: "carConstants (car a) = carConstants (car s)" unfolding assms(3) using c1 by simp
  have b: "bodyPolygon (car a) = getChamferedRectPolygon (- (1126 / 25)) 475 90 45 0 8 6"
    unfolding bodyPolygon_def pa r(3) carConstants_fields(1-4)[OF cc]
    by (simp add: f(3) js_or_def)
  have ch: "checkCollisions a = (False, a)"
    unfolding level_one_check[OF o f(5-10) b] Let_def using curb_start_clear by simp
  show miss: "\<not> fst (checkCollisions a)" unfolding ch by simp
  show pm: "pos_x (car m) = - (1126 / 25)" "pos_y (car m) = 475"
    unfolding assms(4) resolveCollision_miss(1,2)[OF miss] by (rule pa(1), rule pa(2))
  have ua: "collisionBounceUntilMs a = 1140" "collisionBounceDir a = (1, 0)"
    unfolding assms(3) using u1 by simp_all
  show u: "collisionBounceUntilMs m = 1140"
    using resolveCollision_until_miss[OF miss] ua(1) unfolding assms(4) by simp
  show d: "collisionBounceDir m = (1, 0)"
    using resolveCollision_dir_miss[OF miss] ua(2) unfolding assms(4) by simp
  have om: "outsideUpdateCar m = outsideUpdateCar s" unfolding assms(4) using o by simp
  have cm: "carConstants (car m) = carConstants (car s)" unfolding assms(4) using cc by simp
  have g: "canvasWidth m = 800" "canvasHeight m = 600" "collisionBounceDurationMs m = 140"
    "collisionBounceSpeed m = 220" "width (car m) = 90"
    unfolding outside_fields(11,12,13,14)[OF om] carConstants_fields(1)[OF cm] f
    by simp_all
  show pw: "pos_x (car (wrapClamp m)) = 845" "pos_y (car (wrapClamp m)) = 475"
    unfolding wrapClamp_pos pm g by simp_all
  show e: "e = bounce (1 / 50) 1020 (wrapClamp m)"
    unfolding assms(5) updateCar_physics[OF h1] assms(4) assms(3) ..
  have ow: "outsideUpdateCar (wrapClamp m) = outsideUpdateCar s" using om by simp
  have cw: "carConstants (car (wrapClamp m)) = carConstants (car s)" using cm by simp
  have gw: "canvasWidth (wrapClamp m) = 800" "canvasHeight (wrapClamp m) = 600"
    "collisionBounceDurationMs (wrapClamp m) = 140"
    "collisionBounceSpeed (wrapClamp m) = 220" "width (car (wrapClamp m)) = 90"
    unfolding outside_fields(11,12,13,14)[OF ow] carConstants_fields(1)[OF cw] f
    by simp_all
  have uw: "collisionBounceUntilMs (wrapClamp m) = 1140" "collisionBounceDir (wrapClamp m) = (1, 0)"
    using u d by simp_all
  have act: "1020 < collisionBounceUntilMs (wrapClamp m)" unfolding uw by simp
  show "pos_x (car e) = - 45"
    unfolding e bounce_pos_x_active[OF act] pw gw uw by simp
  show "pos_y (car e) = 475"
    unfolding e bounce_pos_y[OF act] pw gw uw by simp
qed

text \<open>
  C8, as stated, fails at the end of a tick in which a bounce impulse is active. On the
  800 by 600 canvas the car stands at \<open>x = 845\<close>, the position where a car that left on the
  left reappears, level with the curb (\<open>y = 475\<close>), and the down key is held. In the first
  tick (20 ms, the clock at 1000 ms) it backs into the end of the curb: the position is rolled
  back to 845 and the impulse that the contact starts, of direction \<open>(1, 0)\<close>, pushes the car
  past 845, so the bounds test of the impulse puts it at \<open>x = -45\<close>. In the second tick
  (20 ms, the clock at 1020 ms) the car backs up again, touches nothing, and is at
  \<open>x = -45.04\<close> after the collision branch, left of minus half its width: it exits past the
  left edge and the boundary block puts it at 845. The impulse of the first tick is still
  active and pushes it past 845 again, so this tick ends with the car at \<open>x = -45\<close>, at the
  edge it left and not at the right edge.
\<close>

theorem impulse_carries_car_back:
  "winResetAtMs (updateCar (1 / 50) 1000 1000 1000
      ((the (initial 800 600))\<lparr>
          car := (car (the (initial 800 600)))\<lparr>pos_x := 845, pos_y := 475\<rparr>,
          keys := (keys (the (initial 800 600)))\<lparr>down := True\<rparr>\<rparr>)) = None \<and>
   \<not> isDragging (updateCar (1 / 50) 1000 1000 1000
      ((the (initial 800 600))\<lparr>
          car := (car (the (initial 800 600)))\<lparr>pos_x := 845, pos_y := 475\<rparr>,
          keys := (keys (the (initial 800 600)))\<lparr>down := True\<rparr>\<rparr>)) \<and>
   width (car (updateCar (1 / 50) 1000 1000 1000
      ((the (initial 800 600))\<lparr>
          car := (car (the (initial 800 600)))\<lparr>pos_x := 845, pos_y := 475\<rparr>,
          keys := (keys (the (initial 800 600)))\<lparr>down := True\<rparr>\<rparr>))) = 90 \<and>
   canvasWidth (updateCar (1 / 50) 1000 1000 1000
      ((the (initial 800 600))\<lparr>
          car := (car (the (initial 800 600)))\<lparr>pos_x := 845, pos_y := 475\<rparr>,
          keys := (keys (the (initial 800 600)))\<lparr>down := True\<rparr>\<rparr>)) = 800 \<and>
   pos_x (car (resolveCollision
      (pos_x (car (updateCar (1 / 50) 1000 1000 1000
         ((the (initial 800 600))\<lparr>
             car := (car (the (initial 800 600)))\<lparr>pos_x := 845, pos_y := 475\<rparr>,
             keys := (keys (the (initial 800 600)))\<lparr>down := True\<rparr>\<rparr>))))
      (pos_y (car (updateCar (1 / 50) 1000 1000 1000
         ((the (initial 800 600))\<lparr>
             car := (car (the (initial 800 600)))\<lparr>pos_x := 845, pos_y := 475\<rparr>,
             keys := (keys (the (initial 800 600)))\<lparr>down := True\<rparr>\<rparr>))))
      1020 1020
      (advance (1 / 50) (heading (1 / 50) (steering (1 / 50) (throttle (1 / 50)
         (updateCar (1 / 50) 1000 1000 1000
            ((the (initial 800 600))\<lparr>
                car := (car (the (initial 800 600)))\<lparr>pos_x := 845, pos_y := 475\<rparr>,
                keys := (keys (the (initial 800 600)))\<lparr>down := True\<rparr>\<rparr>)))))))) =
     - (1126 / 25) \<and>
   pos_x (car (updateCar (1 / 50) 1020 1020 1020
      (updateCar (1 / 50) 1000 1000 1000
         ((the (initial 800 600))\<lparr>
             car := (car (the (initial 800 600)))\<lparr>pos_x := 845, pos_y := 475\<rparr>,
             keys := (keys (the (initial 800 600)))\<lparr>down := True\<rparr>\<rparr>)))) = - 45"
proof -
  define s where "s = (the (initial 800 600))\<lparr>
                  car := (car (the (initial 800 600)))\<lparr>pos_x := 845, pos_y := 475\<rparr>,
                  keys := (keys (the (initial 800 600)))\<lparr>down := True\<rparr>\<rparr>"
  define e1 where "e1 = updateCar (1 / 50) 1000 1000 1000 s"
  define a where "a = advance (1 / 50) (heading (1 / 50) (steering (1 / 50) (throttle (1 / 50) e1)))"
  define m where "m = resolveCollision (pos_x (car e1)) (pos_y (car e1)) 1020 1020 a"
  define e where "e = updateCar (1 / 50) 1020 1020 1020 e1"
  note f = curb_end_second_tick[OF s_def e1_def a_def m_def e_def]
  have "winResetAtMs e1 = None \<and> \<not> isDragging e1 \<and> width (car e1) = 90 \<and>
        canvasWidth e1 = 800 \<and> pos_x (car m) = - (1126 / 25) \<and> pos_x (car e) = - 45"
    using f(1,2,3,4,13,20) by simp
  then show ?thesis unfolding e_def m_def a_def e1_def s_def .
qed

text \<open>
  C8, as the code has it. In a tick that runs the physics, let \<open>m\<close> be the state after the
  collision branch. The boundary block puts the car at the right edge plus half its width when
  its \<open>x\<close> is left of minus half its width, at minus half its width when its \<open>x\<close> is past the
  right edge plus half its width, and leaves \<open>x\<close> alone otherwise; \<open>y\<close> is clamped to
  \<open>[45, height - 45]\<close>. That is the end of the tick when no bounce impulse is active. An
  active impulse then moves the car by \<open>v = collisionBounceSpeed * t * t * dt\<close> along
  \<open>collisionBounceDir\<close>, where \<open>t\<close> is the remaining fraction of the impulse's duration, and
  the same wrap and clamp are applied to the moved position \<open>(x, y)\<close>. So every such tick
  ends with \<open>y\<close> clamped (between the margins on a canvas at least 90 high) and \<open>x\<close> within
  half a car width of the canvas; but a car that exits on the left while an active impulse
  pushes it to the right ends the tick at minus half its width, on the side where it left.
\<close>

theorem wrap_and_clamp:
  assumes "winResetAtMs s = None" and "\<not> isDragging s"
    and "m = resolveCollision (pos_x (car s)) (pos_y (car s)) tFlash tBounce
               (advance dt (heading dt (steering dt (throttle dt s))))"
    and "e = updateCar dt tFlash tBounce tImpulse s"
    and "t = max 0 (min 1 ((collisionBounceUntilMs m - tImpulse) / collisionBounceDurationMs s))"
    and "v = collisionBounceSpeed s * (t * t) * dt"
    and "x = pos_x (car (wrapClamp m)) + fst (collisionBounceDir m) * v"
    and "y = pos_y (car (wrapClamp m)) + snd (collisionBounceDir m) * v"
  shows "pos_x (car (wrapClamp m)) =
           (if pos_x (car m) < - (width (car s) / 2) then canvasWidth s + width (car s) / 2
            else if canvasWidth s + width (car s) / 2 < pos_x (car m) then - (width (car s) / 2)
            else pos_x (car m)) \<and>
         pos_y (car (wrapClamp m)) = max 45 (min (canvasHeight s - 45) (pos_y (car m))) \<and>
         e = bounce dt tImpulse (wrapClamp m) \<and>
         (\<not> tImpulse < collisionBounceUntilMs m \<longrightarrow> e = wrapClamp m) \<and>
         pos_y (car e) = max 45 (min (canvasHeight s - 45) (pos_y (car e))) \<and>
         (90 \<le> canvasHeight s \<longrightarrow> 45 \<le> pos_y (car e) \<and> pos_y (car e) \<le> canvasHeight s - 45) \<and>
         (0 \<le> canvasWidth s + width (car s) \<longrightarrow>
            - (width (car s) / 2) \<le> pos_x (car e) \<and>
            pos_x (car e) \<le> canvasWidth s + width (car s) / 2) \<and>
         (tImpulse < collisionBounceUntilMs m \<longrightarrow>
            pos_x (car e) =
              (if x < - (width (car s) / 2) then canvasWidth s + width (car s) / 2
               else if canvasWidth s + width (car s) / 2 < x then - (width (car s) / 2)
               else x) \<and>
            pos_y (car e) = max 45 (min (canvasHeight s - 45) y)) \<and>
         (tImpulse < collisionBounceUntilMs m \<and> pos_x (car m) < - (width (car s) / 2) \<and>
          0 < fst (collisionBounceDir m) * v \<and> 0 \<le> canvasWidth s + width (car s) \<longrightarrow>
            pos_x (car e) = - (width (car s) / 2))"
proof -
  have e: "e = bounce dt tImpulse (wrapClamp m)"
    unfolding assms(4) updateCar_physics[OF assms(1,2)] assms(3) ..
  have o: "outsideUpdateCar m = outsideUpdateCar s" unfolding assms(3) by simp
  have c: "carConstants (car m) = carConstants (car s)" unfolding assms(3) by simp
  note g = outside_fields(11,12)[OF o] carConstants_fields(1)[OF c]
  have w: "pos_x (car (wrapClamp m)) =
           (if pos_x (car m) < - (width (car s) / 2) then canvasWidth s + width (car s) / 2
            else if canvasWidth s + width (car s) / 2 < pos_x (car m) then - (width (car s) / 2)
            else pos_x (car m))"
    "pos_y (car (wrapClamp m)) = max 45 (min (canvasHeight s - 45) (pos_y (car m)))"
    using wrapClamp_pos[of m] unfolding g by simp_all
  have x: "\<not> tImpulse < collisionBounceUntilMs m \<Longrightarrow> e = wrapClamp m"
    unfolding e by (rule bounce_expired) simp
  obtain z where z: "pos_y (car e) = max 45 (min (canvasHeight s - 45) z)"
    using tick_end_y[of dt tImpulse m] unfolding e g by blast
  have y1: "pos_y (car e) = max 45 (min (canvasHeight s - 45) (pos_y (car e)))"
    unfolding z clamp_idem ..
  have y2: "90 \<le> canvasHeight s \<Longrightarrow> 45 \<le> pos_y (car e) \<and> pos_y (car e) \<le> canvasHeight s - 45"
    unfolding z by (rule clamp_range)
  have x2: "0 \<le> canvasWidth s + width (car s) \<Longrightarrow>
            - (width (car s) / 2) \<le> pos_x (car e) \<and>
            pos_x (car e) \<le> canvasWidth s + width (car s) / 2"
    using tick_end_x[of m dt tImpulse] unfolding e g by simp
  have ow: "outsideUpdateCar (wrapClamp m) = outsideUpdateCar s" using o by simp
  have cw: "carConstants (car (wrapClamp m)) = carConstants (car s)" using c by simp
  note gw = outside_fields(11,12,13,14)[OF ow] carConstants_fields(1)[OF cw]
  have k: "collisionBounceUntilMs (wrapClamp m) = collisionBounceUntilMs m"
    "collisionBounceDir (wrapClamp m) = collisionBounceDir m"
    by simp_all
  have i: "pos_x (car e) =
              (if x < - (width (car s) / 2) then canvasWidth s + width (car s) / 2
               else if canvasWidth s + width (car s) / 2 < x then - (width (car s) / 2)
               else x) \<and>
            pos_y (car e) = max 45 (min (canvasHeight s - 45) y)"
    if act: "tImpulse < collisionBounceUntilMs m"
  proof -
    have a: "tImpulse < collisionBounceUntilMs (wrapClamp m)" using act by simp
    show ?thesis
      unfolding e bounce_pos_x_active[OF a] bounce_pos_y[OF a] gw k
        assms(5)[symmetric] assms(6)[symmetric] assms(7)[symmetric] assms(8)[symmetric]
      by simp
  qed
  have b: "pos_x (car e) = - (width (car s) / 2)"
    if "tImpulse < collisionBounceUntilMs m \<and> pos_x (car m) < - (width (car s) / 2) \<and>
          0 < fst (collisionBounceDir m) * v \<and> 0 \<le> canvasWidth s + width (car s)"
  proof -
    have "x = canvasWidth s + width (car s) / 2 + fst (collisionBounceDir m) * v"
      unfolding assms(7) w(1) using that by simp
    then have "canvasWidth s + width (car s) / 2 < x" "\<not> x < - (width (car s) / 2)"
      using that by simp_all
    then show ?thesis using i that by simp
  qed
  show ?thesis using w e x y1 y2 x2 i b by blast
qed

theorem wrap_and_clamp_witness:
  "(let s = (the (initial 800 600))\<lparr>car := (car (the (initial 800 600)))\<lparr>
                 pos_x := - 44, speed := - 100\<rparr>\<rparr>;
        m = resolveCollision (pos_x (car s)) (pos_y (car s)) 1000 1000
              (advance (1 / 50) (heading (1 / 50) (steering (1 / 50) (throttle (1 / 50) s))));
        e = updateCar (1 / 50) 1000 1000 1000 s
    in winResetAtMs s = None \<and> \<not> isDragging s \<and>
       pos_x (car s) = - 44 \<and> pos_y (car s) = 355 \<and>
       pos_x (car m) = - (1147 / 25) \<and> pos_y (car m) = 355 \<and>
       \<not> 1000 < collisionBounceUntilMs m \<and> 90 \<le> canvasHeight s \<and>
       0 \<le> canvasWidth s + width (car s) \<and>
       pos_x (car e) = 845 \<and> pos_y (car e) = 355) \<and>
   (let s = updateCar (1 / 50) 1000 1000 1000
              ((the (initial 800 600))\<lparr>
                  car := (car (the (initial 800 600)))\<lparr>pos_x := 845, pos_y := 475\<rparr>,
                  keys := (keys (the (initial 800 600)))\<lparr>down := True\<rparr>\<rparr>);
        m = resolveCollision (pos_x (car s)) (pos_y (car s)) 1020 1020
              (advance (1 / 50) (heading (1 / 50) (steering (1 / 50) (throttle (1 / 50) s))));
        e = updateCar (1 / 50) 1020 1020 1020 s;
        t = max 0 (min 1 ((collisionBounceUntilMs m - 1020) / collisionBounceDurationMs s));
        v = collisionBounceSpeed s * (t * t) * (1 / 50)
    in winResetAtMs s = None \<and> \<not> isDragging s \<and>
       pos_x (car s) = - 45 \<and> pos_y (car s) = 475 \<and>
       pos_x (car m) = - (1126 / 25) \<and> pos_y (car m) = 475 \<and>
       1020 < collisionBounceUntilMs m \<and> pos_x (car m) < - (width (car s) / 2) \<and>
       collisionBounceDir m = (1, 0) \<and> v = 792 / 245 \<and>
       0 < fst (collisionBounceDir m) * v \<and>
       90 \<le> canvasHeight s \<and> 0 \<le> canvasWidth s + width (car s) \<and>
       pos_x (car (wrapClamp m)) = 845 \<and>
       pos_x (car e) = - 45 \<and> pos_y (car e) = 475)"
proof -
  define s where "s = (the (initial 800 600))\<lparr>car := (car (the (initial 800 600)))\<lparr>
                  pos_x := - 44, speed := - 100\<rparr>\<rparr>"
  define m where "m = resolveCollision (pos_x (car s)) (pos_y (car s)) 1000 1000
              (advance (1 / 50) (heading (1 / 50) (steering (1 / 50) (throttle (1 / 50) s))))"
  define e where "e = updateCar (1 / 50) 1000 1000 1000 s"
  note f = leaving_left[OF s_def]
  note t = wrap_and_clamp[OF f(1,2) m_def e_def refl refl refl refl]
  have pm: "pos_x (car m) = - (1147 / 25)" "pos_y (car m) = 355"
    unfolding m_def using resolveCollision_miss(1,2)[OF f(5)] f(3,4) by simp_all
  have "collisionBounceUntilMs (advance (1 / 50) (heading (1 / 50) (steering (1 / 50)
              (throttle (1 / 50) s)))) = collisionBounceUntilMs s"
    by simp
  then have u: "collisionBounceUntilMs m = 0"
    unfolding m_def resolveCollision_until_miss[OF f(5)] using f(9) by simp
  from t have t1: "pos_x (car (wrapClamp m)) =
           (if pos_x (car m) < - (width (car s) / 2) then canvasWidth s + width (car s) / 2
            else if canvasWidth s + width (car s) / 2 < pos_x (car m) then - (width (car s) / 2)
            else pos_x (car m))"
    and t2: "pos_y (car (wrapClamp m)) = max 45 (min (canvasHeight s - 45) (pos_y (car m)))"
    and t3: "\<not> 1000 < collisionBounceUntilMs m \<longrightarrow> e = wrapClamp m"
    by blast+
  have ew: "e = wrapClamp m" using t3 u by simp
  have "pos_x (car e) = 845" "pos_y (car e) = 355"
    unfolding ew t1 t2 by (simp_all add: pm f)
  then have first: "winResetAtMs s = None \<and> \<not> isDragging s \<and>
       pos_x (car s) = - 44 \<and> pos_y (car s) = 355 \<and>
       pos_x (car m) = - (1147 / 25) \<and> pos_y (car m) = 355 \<and>
       \<not> 1000 < collisionBounceUntilMs m \<and> 90 \<le> canvasHeight s \<and>
       0 \<le> canvasWidth s + width (car s) \<and>
       pos_x (car e) = 845 \<and> pos_y (car e) = 355"
    using f(1,2,6,7,8,10,11) pm u by simp
  define s0 where "s0 = (the (initial 800 600))\<lparr>
                  car := (car (the (initial 800 600)))\<lparr>pos_x := 845, pos_y := 475\<rparr>,
                  keys := (keys (the (initial 800 600)))\<lparr>down := True\<rparr>\<rparr>"
  define s' where "s' = updateCar (1 / 50) 1000 1000 1000 s0"
  define a' where "a' = advance (1 / 50) (heading (1 / 50) (steering (1 / 50) (throttle (1 / 50) s')))"
  define m' where "m' = resolveCollision (pos_x (car s')) (pos_y (car s')) 1020 1020 a'"
  define e' where "e' = updateCar (1 / 50) 1020 1020 1020 s'"
  define t' where "t' = max 0 (min 1 ((collisionBounceUntilMs m' - 1020) / collisionBounceDurationMs s'))"
  define v' where "v' = collisionBounceSpeed s' * (t' * t') * (1 / 50)"
  note h = curb_end_second_tick[OF s0_def s'_def a'_def m'_def refl]
  note q = wrap_and_clamp[OF h(1,2) m'_def[unfolded a'_def] e'_def t'_def v'_def refl refl]
  have tv: "t' = 6 / 7" "v' = 792 / 245"
    unfolding v'_def t'_def h(15) h(6,7) by simp_all
  have pre: "1020 < collisionBounceUntilMs m'" "pos_x (car m') < - (width (car s') / 2)"
    "0 < fst (collisionBounceDir m') * v'" "0 \<le> canvasWidth s' + width (car s')"
    "90 \<le> canvasHeight s'"
    unfolding h(15) h(13) h(16) h(3,4,5) tv by simp_all
  from q have q1: "1020 < collisionBounceUntilMs m' \<and> pos_x (car m') < - (width (car s') / 2) \<and>
          0 < fst (collisionBounceDir m') * v' \<and> 0 \<le> canvasWidth s' + width (car s') \<longrightarrow>
            pos_x (car e') = - (width (car s') / 2)"
    and q2: "1020 < collisionBounceUntilMs m' \<longrightarrow>
            pos_x (car e') =
              (if pos_x (car (wrapClamp m')) + fst (collisionBounceDir m') * v'
                    < - (width (car s') / 2) then canvasWidth s' + width (car s') / 2
               else if canvasWidth s' + width (car s') / 2 <
                    pos_x (car (wrapClamp m')) + fst (collisionBounceDir m') * v'
               then - (width (car s') / 2)
               else pos_x (car (wrapClamp m')) + fst (collisionBounceDir m') * v') \<and>
            pos_y (car e') =
              max 45 (min (canvasHeight s' - 45)
                (pos_y (car (wrapClamp m')) + snd (collisionBounceDir m') * v'))"
    by blast+
  have ex: "pos_x (car e') = - 45" using q1 pre h(3) by simp
  have ey: "pos_y (car e') = 475" using q2 pre(1) unfolding h(16) h(18) h(5) by simp
  have second: "winResetAtMs s' = None \<and> \<not> isDragging s' \<and>
       pos_x (car s') = - 45 \<and> pos_y (car s') = 475 \<and>
       pos_x (car m') = - (1126 / 25) \<and> pos_y (car m') = 475 \<and>
       1020 < collisionBounceUntilMs m' \<and> pos_x (car m') < - (width (car s') / 2) \<and>
       collisionBounceDir m' = (1, 0) \<and> v' = 792 / 245 \<and>
       0 < fst (collisionBounceDir m') * v' \<and>
       90 \<le> canvasHeight s' \<and> 0 \<le> canvasWidth s' + width (car s') \<and>
       pos_x (car (wrapClamp m')) = 845 \<and>
       pos_x (car e') = - 45 \<and> pos_y (car e') = 475"
    using h(1,2,8,9,13,14,16,17) pre tv(2) ex ey by simp
  show ?thesis
    unfolding Let_def
    using first[unfolded e_def m_def s_def]
      second[unfolded v'_def t'_def e'_def m'_def a'_def s'_def s0_def]
    by (rule conjI)
qed

section \<open>Limits of steer angle and speed\<close>


lemma constructor_constants:
  "carConstants c = carConstants (car (construct w h)) \<Longrightarrow>
     maxSpeed c = 360 \<and> acceleration c = 100 \<and> friction c = 300 \<and>
     maxSteerAngle c = pi / 6 \<and> steerChangeRate c = 8 / 10 \<and> wheelbase c = 70"
  by (simp add: carConstants_def construct_def)

lemma clamp_steps:
  fixes v :: real
  assumes "\<bar>v\<bar> \<le> M" "0 \<le> d"
  shows "\<bar>min (v + d) M\<bar> \<le> M" "\<bar>max (v - d) (- M)\<bar> \<le> M"
    "\<bar>max 0 (v - d)\<bar> \<le> M" "\<bar>min 0 (v + d)\<bar> \<le> M"
  using assms by arith+

lemma throttle_limits:
  assumes "0 \<le> dt" "carConstants (car s) = carConstants (car (construct w h))"
    "\<bar>speed (car s)\<bar> \<le> maxSpeed (car s)"
  shows "\<bar>speed (car (throttle dt s))\<bar> \<le> maxSpeed (car s)"
proof -
  note k = constructor_constants[OF assms(2)]
  have a: "0 \<le> acceleration (car s) * dt" "0 \<le> friction (car s) * dt"
    using assms(1) by (simp_all add: k)
  show ?thesis
    using clamp_steps(1,2)[OF assms(3) a(1)] clamp_steps(3,4)[OF assms(3) a(2)] assms(3)
    by (simp add: throttle_def Let_def)
qed

lemma steering_limits:
  assumes "0 \<le> dt" "carConstants (car s) = carConstants (car (construct w h))"
    "\<bar>steerAngle (car s)\<bar> \<le> maxSteerAngle (car s)"
  shows "\<bar>steerAngle (car (steering dt s))\<bar> \<le> maxSteerAngle (car s)"
proof -
  note k = constructor_constants[OF assms(2)]
  have a: "0 \<le> steerChangeRate (car s) * dt" using assms(1) by (simp add: k)
  show ?thesis
    using clamp_steps(1,2)[OF assms(3) a] assms(3)
    by (simp add: steering_def Let_def)
qed

lemma resolveCollision_speed:
  "speed (car (resolveCollision px py tf tb s)) = speed (car s) \<or>
   speed (car (resolveCollision px py tf tb s)) = 0"
  by (simp add: resolveCollision_cases Let_def)

lemma updateCar_constants [simp]:
  "carConstants (car (updateCar dt tf tb ti s)) = carConstants (car s)"
  by (simp add: updateCar_def Let_def)

lemma updateCar_limits:
  assumes "0 \<le> dt" "carConstants (car s) = carConstants (car (construct w h))"
    "withinLimits s"
  shows "withinLimits (updateCar dt tf tb ti s)"
proof -
  note k = constructor_constants[OF assms(2)]
  have p: "0 \<le> pi / 6" by simp
  let ?t = "throttle dt s"
  have t: "\<bar>speed (car ?t)\<bar> \<le> 360" "\<bar>steerAngle (car ?t)\<bar> \<le> pi / 6"
    using throttle_limits[OF assms(1,2)] assms(3) by (simp_all add: withinLimits_def k)
  have ct: "carConstants (car ?t) = carConstants (car (construct w h))" using assms(2) by simp
  have st: "\<bar>steerAngle (car (steering dt ?t))\<bar> \<le> pi / 6"
    using steering_limits[OF assms(1) ct] t(2) constructor_constants[OF ct] by simp
  let ?a = "advance dt (heading dt (steering dt ?t))"
  have a: "\<bar>speed (car ?a)\<bar> \<le> 360" "\<bar>steerAngle (car ?a)\<bar> \<le> pi / 6"
    using t(1) st by simp_all
  have r: "\<bar>speed (car (resolveCollision px py tf tb ?a))\<bar> \<le> 360" for px py
    using resolveCollision_speed[of px py tf tb ?a] a(1) by auto
  have m: "maxSpeed (car (updateCar dt tf tb ti s)) = 360"
    "maxSteerAngle (car (updateCar dt tf tb ti s)) = pi / 6"
    using constructor_constants[of "car (updateCar dt tf tb ti s)" w h] assms(2) by simp_all
  show ?thesis
  proof (cases "winResetAtMs s = None \<and> \<not> isDragging s")
    case True
    then show ?thesis
      unfolding withinLimits_def m using r a(2) by (simp add: updateCar_physics)
  next
    case False
    then show ?thesis
      unfolding withinLimits_def m using assms(3) p
      by (auto simp: updateCar_def withinLimits_def k)
  qed
qed


lemma constants_independent:
  "carConstants (car (construct w h)) = carConstants (car (construct 0 0))"
  by (simp add: carConstants_def construct_def)

lemma withinLimits_car: "car a = car b \<Longrightarrow> withinLimits a = withinLimits b"
  by (simp add: withinLimits_def)

lemma setInitialCarPosition_limits:
  assumes "carConstants (car s) = carConstants (car (construct 0 0))"
  shows "withinLimits (setInitialCarPosition s)"
    "carConstants (car (setInitialCarPosition s)) = carConstants (car s)"
proof -
  have "maxSteerAngle (car s) = pi / 6" "maxSpeed (car s) = 360"
    using constructor_constants[OF assms] by simp_all
  then have "0 \<le> maxSteerAngle (car s)" "0 \<le> maxSpeed (car s)"
    by (simp_all only: pi_ge_zero divide_nonneg_nonneg zero_le_numeral)
  then show "withinLimits (setInitialCarPosition s)"
    by (simp add: withinLimits_def setInitialCarPosition_def Let_def)
  show "carConstants (car (setInitialCarPosition s)) = carConstants (car s)"
    by (simp add: setInitialCarPosition_def Let_def)
qed

lemma nextLevel_limits:
  assumes "nextLevel s = Some b" "carConstants (car s) = carConstants (car (construct 0 0))"
  shows "withinLimits b \<and> carConstants (car b) = carConstants (car s)"
proof -
  obtain s2 where r: "recomputeParkingLayout (s\<lparr>winCount := winCount s + 1,
        gapBetweenCars := max (minGap s) (gapBetweenCars s - gapStep s)\<rparr>) = Some s2"
    and b: "b = (setInitialCarPosition s2)\<lparr>winResetAtMs := None, winLatched := False\<rparr>"
    using assms(1) by (auto simp: nextLevel_def Let_def split: option.splits)
  have c: "car s2 = car s" using recompute_Some[OF r] by simp
  then have k: "carConstants (car s2) = carConstants (car (construct 0 0))"
    using assms(2) by simp
  have "car b = car (setInitialCarPosition s2)" by (simp add: b)
  then show ?thesis
    using setInitialCarPosition_limits[OF k] c withinLimits_car[of b "setInitialCarPosition s2"]
    by simp
qed

lemma checkParking_limits:
  assumes "checkParking tL tR s = Some b"
    "carConstants (car s) = carConstants (car (construct 0 0))" "withinLimits s"
  shows "withinLimits b \<and> carConstants (car b) = carConstants (car s)"
proof -
  have l: "car (latchStep tL s) = car s" by simp
  from assms(1) have "b = latchStep tL s \<or> nextLevel (latchStep tL s) = Some b"
    by (auto simp: checkParking_def Let_def split: option.splits if_splits)
  then show ?thesis
  proof
    assume "b = latchStep tL s"
    then show ?thesis using l assms(3) withinLimits_car[of b s] by simp
  next
    assume "nextLevel (latchStep tL s) = Some b"
    from nextLevel_limits[OF this] show ?thesis using l assms(2) by simp
  qed
qed

lemma checkParking_parked:
  assumes "checkParking tL tR s = Some b"
  shows "length (parkedCars b) = length (parkedCars s)"
proof -
  from assms have "b = latchStep tL s \<or> nextLevel (latchStep tL s) = Some b"
    by (auto simp: checkParking_def Let_def split: option.splits if_splits)
  then show ?thesis using nextLevel_Some[of "latchStep tL s" b] by auto
qed

lemma checkParking_defined:
  assumes "2 \<le> length (parkedCars s)"
  shows "\<exists>b. checkParking tL tR s = Some b"
  using nextLevel_defined[of "latchStep tL s"] assms
  by (auto simp: checkParking_def Let_def split: option.splits)

lemma handle_ok:
  assumes "okState s"
  shows "\<exists>b. handle e s = Some b \<and> okState b"
proof (cases e)
  case (KeyDown k)
  then show ?thesis using assms by (cases k) (auto simp: okState_def withinLimits_def)
next
  case (KeyUp k)
  then show ?thesis using assms by (cases k) (auto simp: okState_def withinLimits_def)
next
  case (MouseDown mx my)
  have "0 \<le> maxSpeed (car s)" using assms constructor_constants[of "car s" 0 0]
    by (simp add: okState_def)
  then show ?thesis using assms MouseDown by (auto simp: okState_def withinLimits_def)
next
  case (MouseMove mx my)
  then show ?thesis using assms by (auto simp: okState_def withinLimits_def)
next
  case EndDrag
  then show ?thesis using assms by (auto simp: okState_def withinLimits_def)
next
  case (SliderInput v)
  have "2 \<le> length (parkedCars (s\<lparr>gapBetweenCars := v\<rparr>))" using assms by (simp add: okState_def)
  from recompute_defined[OF this] obtain b where
    b: "recomputeParkingLayout (s\<lparr>gapBetweenCars := v\<rparr>) = Some b" by blast
  from recompute_Some[OF b] have "car b = car s" "length (parkedCars b) = length (parkedCars s)"
    by simp_all
  then show ?thesis using assms b SliderInput withinLimits_car[of b s]
    by (simp add: okState_def)
next
  case (Frame tso tf tb ti tL tR)
  show ?thesis
  proof (cases tso)
    case None
    then show ?thesis using assms Frame by (simp add: gameLoop_def)
  next
    case (Some ts)
    define dt where "dt = max 0 (min ((ts - (case lastFrameAtMs s of None \<Rightarrow> ts | Some l \<Rightarrow> l)) / 1000)
                     (5 / 100))"
    define u where "u = updateCar dt tf tb ti (s\<lparr>lastFrameAtMs := Some ts\<rparr>)"
    have g: "handle e s = checkParking tL tR u"
      by (simp add: Frame Some gameLoop_Some u_def dt_def)
    have d: "0 \<le> dt" by (simp add: dt_def)
    have k: "carConstants (car (s\<lparr>lastFrameAtMs := Some ts\<rparr>)) = carConstants (car (construct 0 0))"
      and w: "withinLimits (s\<lparr>lastFrameAtMs := Some ts\<rparr>)"
      using assms by (simp_all add: okState_def withinLimits_def)
    have uw: "withinLimits u" unfolding u_def using updateCar_limits[OF d k w] .
    have uk: "carConstants (car u) = carConstants (car (construct 0 0))"
      unfolding u_def using k by simp
    have up: "2 \<le> length (parkedCars u)" unfolding u_def using assms by (simp add: okState_def)
    from checkParking_defined[OF up] obtain b where b: "checkParking tL tR u = Some b" by blast
    from checkParking_limits[OF b uk uw] checkParking_parked[OF b] up uk
    have "okState b" by (simp add: okState_def)
    then show ?thesis using g b by simp
  qed
qed

lemma run_ok:
  assumes "okState s"
  shows "\<exists>b. run es s = Some b \<and> okState b"
  using assms
proof (induction es arbitrary: s)
  case Nil
  then show ?case by simp
next
  case (Cons e es)
  from handle_ok[OF Cons.prems, of e] obtain s1 where "handle e s = Some s1" "okState s1"
    by blast
  then show ?case using Cons.IH[of s1] by simp
qed

lemma initial_ok: "\<exists>s. initial w h = Some s \<and> okState s"
  by (simp add: initial_def recomputeParkingLayout_def setInitialCarPosition_def construct_def
      Let_def okState_def withinLimits_def carConstants_def)

text \<open>
  C9. From the state the constructor leaves, after any sequence of events (key presses and
  releases, mouse presses, drags and releases, slider inputs, animation frames with any
  timestamps and clock readings, which include the collision rollback and the level
  reset), the steer angle is within \<open>maxSteerAngle\<close> and the speed within \<open>maxSpeed\<close>, and
  these two limits still are \<open>pi / 6\<close> and 360.
\<close>

theorem steer_and_speed_bounded:
  assumes "initial w h = Some s0" and "run es s0 = Some s"
  shows "\<bar>steerAngle (car s)\<bar> \<le> maxSteerAngle (car s) \<and> \<bar>speed (car s)\<bar> \<le> maxSpeed (car s) \<and>
         maxSteerAngle (car s) = pi / 6 \<and> maxSpeed (car s) = 360"
proof -
  have "okState s0" using initial_ok[of w h] assms(1) by auto
  from run_ok[OF this, of es] have "okState s" using assms(2) by auto
  then show ?thesis
    using constructor_constants[of "car s" 0 0] by (simp add: okState_def withinLimits_def)
qed

theorem steer_and_speed_bounded_witness:
  "\<exists>s0 s. initial 800 600 = Some s0 \<and>
     run [KeyDown ArrowUp, KeyDown ArrowRight, Frame (Some 0) 0 0 0 0 0,
          Frame (Some 16) 16 16 16 16 16, Frame (Some 5000) 5000 5000 5000 5000 5000,
          KeyUp ArrowUp, MouseDown 60 355, MouseMove 300 400, EndDrag, SliderInput 100,
          KeyDown ArrowDown, Frame (Some 5016) 5016 5016 5016 5016 5016] s0 = Some s \<and>
     \<bar>steerAngle (car s)\<bar> \<le> pi / 6 \<and> \<bar>speed (car s)\<bar> \<le> 360"
proof -
  obtain s0 where s0: "initial 800 600 = Some s0" "okState s0" using initial_ok by blast
  obtain s where s: "run [KeyDown ArrowUp, KeyDown ArrowRight, Frame (Some 0) 0 0 0 0 0,
          Frame (Some 16) 16 16 16 16 16, Frame (Some 5000) 5000 5000 5000 5000 5000,
          KeyUp ArrowUp, MouseDown 60 355, MouseMove 300 400, EndDrag, SliderInput 100,
          KeyDown ArrowDown, Frame (Some 5016) 5016 5016 5016 5016 5016] s0 = Some s"
    using run_ok[OF s0(2)] by blast
  from steer_and_speed_bounded[OF s0(1) s] s0(1) s show ?thesis by auto
qed

end
